theory Spec2Isabelle
  imports Main "HOL-Library.Word"
begin

section \<open>The gas station: permit building and fee estimation\<close>

text \<open>
  A shallow embedding of the \<open>GasStation\<close> module (\<open>forgeTxAndParams\<close>, \<open>estimate\<close> and
  their helpers). The module is a sequence of awaited calls on a \<open>TezosToolkit\<close>; each
  awaited call is a capability of the toolkit that reads and changes the outside world
  (a state of type \<open>'w\<close>), either returns or throws, and is recorded as one event, with
  its request and its response, in the trace of the run.
\<close>

subsection \<open>JavaScript values\<close>

text \<open>A thrown value: a \<open>TypeError\<close> of the runtime, or any other error object.\<close>

datatype error = Error string | TypeError string

text \<open>
  The numbers of this module are counts (a permit counter, token amounts, fees in mutez):
  a \<open>number\<close> is a non-negative integer-valued IEEE double, or \<open>Infinity\<close>.
\<close>

datatype number = Num nat | Infinity

text \<open>The number of binary digits of a natural number.\<close>

fun bitlen :: "nat \<Rightarrow> nat" where
  "bitlen n = (if n = 0 then 0 else Suc (bitlen (n div 2)))"

declare bitlen.simps [simp del]

text \<open>
  \<open>BigNumber.prototype.toNumber\<close> on a natural number: the nearest double, ties to the
  even significand of 53 bits; beyond the largest double it is \<open>Infinity\<close>.
\<close>

definition toNumber :: "nat \<Rightarrow> number" where
  "toNumber n =
     (let e = bitlen n - 53;
          q = n div 2 ^ e;
          r = n mod 2 ^ e;
          m = (if 2 ^ e < 2 * r \<or> (2 * r = 2 ^ e \<and> odd q) then q + 1 else q);
          v = m * 2 ^ e
      in if 2 ^ 1024 \<le> v then Infinity else Num v)"

text \<open>The \<open>+\<close> of two numbers: the exact sum, rounded to the nearest double.\<close>

fun js_plus :: "number \<Rightarrow> number \<Rightarrow> number" where
  "js_plus (Num a) (Num b) = toNumber (a + b)"
| "js_plus _ _ = Infinity"

text \<open>The character of a decimal digit \<open>d < 10\<close>.\<close>

definition digit :: "nat \<Rightarrow> char" where
  "digit d = ''0123456789'' ! d"

text \<open>All the decimal digits of a natural number.\<close>

fun dec :: "nat \<Rightarrow> string" where
  "dec n = (if n < 10 then [digit n] else dec (n div 10) @ [digit (n mod 10)])"

declare dec.simps [simp del]

text \<open>
  The digits of \<open>Number.prototype.toString\<close>: the shortest significand \<open>s\<close>, followed by
  \<open>z\<close> zeros, that still reads back as the double \<open>x\<close>; of two such significands the one
  nearer to \<open>x\<close>, and the even one when they are equally near. \<open>shortest x j\<close> tries
  \<open>j\<close> trailing zeros first, then fewer.
\<close>

fun shortest :: "nat \<Rightarrow> nat \<Rightarrow> nat \<times> nat" where
  "shortest x 0 = (x, 0)"
| "shortest x (Suc j) =
     (let scale = 10 ^ Suc j;
          lo = x div scale;
          hi = lo + 1;
          okLo = (toNumber (lo * scale) = Num x);
          okHi = (toNumber (hi * scale) = Num x)
      in if okLo \<and> okHi then
           (if x - lo * scale < hi * scale - x then (lo, Suc j)
            else if hi * scale - x < x - lo * scale then (hi, Suc j)
            else if even lo then (lo, Suc j) else (hi, Suc j))
         else if okLo then (lo, Suc j)
         else if okHi then (hi, Suc j)
         else shortest x j)"

declare shortest.simps [simp del]

definition stripZeros :: "string \<Rightarrow> string" where
  "stripZeros s = rev (dropWhile (\<lambda>c. c = CHR ''0'') (rev s))"

text \<open>
  \<open>Number.prototype.toString\<close> in radix 10: plain digits up to 21 of them, the exponent
  form beyond.
\<close>

fun number_toString :: "number \<Rightarrow> string" where
  "number_toString Infinity = ''Infinity''"
| "number_toString (Num x) =
     (if x = 0 then ''0''
      else case shortest x (length (dec x) - 1) of (s, z) \<Rightarrow>
        (let n = length (dec s) + z in
         if n \<le> 21 then dec s @ replicate z (CHR ''0'')
         else case stripZeros (dec s) of
                [] \<Rightarrow> []
              | d # ds \<Rightarrow> (if ds = [] then [d] else d # CHR ''.'' # ds) @ ''e+'' @ dec (n - 1)))"

text \<open>A value of type \<open>any\<close>: the argument trees handed to the contract's schema.\<close>

datatype jsval =
    Undefined
  | Str string
  | Number number
  | Arr "jsval list"
  | Obj "(string \<times> jsval) list"

text \<open>
  The spread \<open>...v\<close> of a value into an argument list: the elements of an array, the
  characters of a string; any other value of this model is not iterable.
\<close>

fun spread :: "jsval \<Rightarrow> error + jsval list" where
  "spread (Arr xs) = Inr xs"
| "spread (Str s) = Inr (map (\<lambda>c. Str [c]) s)"
| "spread _ = Inl (TypeError ''not iterable'')"

text \<open>A Micheline expression, as the JSON the RPC takes: data and types alike.\<close>

datatype micheline =
    Prim string "micheline list"
  | MString string
  | MInt string
  | MBytes string
  | Seq "micheline list"

subsection \<open>The outside world\<close>

type_synonym Uint8Array = "8 word list"

type_synonym ('w, 'a) capability = "'w \<Rightarrow> (error + 'a) \<times> 'w"

record PackDataParams =
  data :: micheline
  type :: micheline

record PackDataResponse =
  packed :: string

record SignResult =
  sig :: string

record Storage =
  permit_counter :: "nat option"

record ParameterSchema =
  Encode :: "string \<Rightarrow> jsval list \<Rightarrow> error + micheline"
  typeWithoutAnnotations :: micheline

record TransferParams =
  tp_to :: string
  tp_entrypoint :: string
  tp_value :: micheline

text \<open>
  A contract abstraction, as \<open>wallet.at\<close> and \<open>contract.at\<close> return it. \<open>methods\<close> is
  the lookup of an entrypoint by name; the method found takes the arguments and gives
  the result of \<open>toTransferParams({})\<close>, or throws.
\<close>

record 'w ContractAbstraction =
  address :: string
  parameterSchema :: ParameterSchema
  storage :: "('w, Storage) capability"
  methods :: "string \<Rightarrow> (jsval list \<Rightarrow> error + TransferParams) option"

text \<open>
  Modelled from the spec: the class \<open>ReadOnlySigner\<close> of \<open>../read-only-signer\<close>, a signer
  bound to a fixed address and public key that never signs.
\<close>

record ReadOnlySigner =
  pkh :: string
  pk :: string

datatype OpKind = ORIGINATION | DELEGATION | REVEAL | TRANSACTION | ACTIVATION

text \<open>\<open>{ kind: OpKind.TRANSACTION, ...tParams }\<close>\<close>

record ParamsWithKind =
  kind :: OpKind
  tParams :: TransferParams

record Estimate =
  suggestedFeeMutez :: number

text \<open>
  The toolkit. \<open>contract_at s\<close> and \<open>estimate_batch s\<close> are \<open>contract.at\<close> and
  \<open>estimate.batch\<close> of the toolkit made by \<open>new TezosToolkit(tezos.rpc)\<close> with its signer
  provider set to \<open>s\<close>.
\<close>

record 'w TezosToolkit =
  wallet_pkh :: "('w, string) capability"
  wallet_at :: "string \<Rightarrow> ('w, 'w ContractAbstraction) capability"
  signer_publicKey :: "('w, string) capability"
  signer_sign :: "string \<Rightarrow> ('w, SignResult) capability"
  rpc_packData :: "PackDataParams \<Rightarrow> ('w, PackDataResponse) capability"
  rpc_getChainId :: "('w, string) capability"
  contract_at :: "ReadOnlySigner \<Rightarrow> string \<Rightarrow> ('w, 'w ContractAbstraction) capability"
  estimate_batch :: "ReadOnlySigner \<Rightarrow> ParamsWithKind list \<Rightarrow> ('w, Estimate list) capability"

text \<open>The imported library functions \<open>hex2buf\<close> and \<open>blake.blake2bHex(input, key, outlen)\<close>.\<close>

record Imports =
  hex2buf :: "string \<Rightarrow> error + Uint8Array"
  blake2bHex :: "Uint8Array \<Rightarrow> Uint8Array option \<Rightarrow> nat \<Rightarrow> string"

text \<open>One awaited call: what was asked, and what came back.\<close>

datatype 'w event =
    WalletPkh "error + string"
  | WalletAt string "error + 'w ContractAbstraction"
  | ContractStorage string "error + Storage"
  | SignerPublicKey "error + string"
  | RpcPackData PackDataParams "error + PackDataResponse"
  | RpcGetChainId "error + string"
  | SignerSign string "error + SignResult"
  | ContractAt ReadOnlySigner string "error + 'w ContractAbstraction"
  | EstimateBatch ReadOnlySigner "ParamsWithKind list" "error + Estimate list"

text \<open>
  An asynchronous computation: from a world, its result (returned or thrown), the
  events of its awaited calls in order, and the world it leaves.
\<close>

type_synonym ('w, 'a) async = "'w \<Rightarrow> (error + 'a) \<times> 'w event list \<times> 'w"

definition return :: "'a \<Rightarrow> ('w, 'a) async" where
  "return a = (\<lambda>w. (Inr a, [], w))"

text \<open>A synchronous step that may throw.\<close>

definition sync :: "error + 'a \<Rightarrow> ('w, 'a) async" where
  "sync r = (\<lambda>w. (r, [], w))"

text \<open>\<open>await\<close> of a capability: the call happens, its outcome is recorded.\<close>

definition call :: "('w, 'a) capability \<Rightarrow> (error + 'a \<Rightarrow> 'w event) \<Rightarrow> ('w, 'a) async" where
  "call cap ev = (\<lambda>w. case cap w of (r, w') \<Rightarrow> (r, [ev r], w'))"

text \<open>Sequencing: a throw ends the computation, nothing after it runs.\<close>

definition await :: "('w, 'a) async \<Rightarrow> ('a \<Rightarrow> ('w, 'b) async) \<Rightarrow> ('w, 'b) async" where
  "await m f = (\<lambda>w. case m w of
       (Inl e, evs, w') \<Rightarrow> (Inl e, evs, w')
     | (Inr a, evs, w') \<Rightarrow> (case f a w' of (r, evs', w'') \<Rightarrow> (r, evs @ evs', w'')))"

subsection \<open>The module\<close>

record ForgeTxParams =
  to :: string
  tokenAddress :: string
  tokenId :: "number option"
  amount :: number
  relayerFee :: number

definition RELAYER_ADDRESS :: string where
  "RELAYER_ADDRESS = ''tz1VSUr8wwNhLAzempoch5d6hLRiTh8Cjcjb''"

definition ESTIMATOR_ADDRESS :: string where
  "ESTIMATOR_ADDRESS = ''tz1VSUr8wwNhLAzempoch5d6hLRiTh8Cjcjb''"

definition ESTIMATOR_PUBLIC_KEY :: string where
  "ESTIMATOR_PUBLIC_KEY = ''edpkvGfYw3LyB1UcCahKQk4rF2tvbMUk8GFiTuMjL75uGXrpvKXhjn''"

text \<open>An optional number as a property value: absent is \<open>undefined\<close>.\<close>

definition optNumber :: "number option \<Rightarrow> jsval" where
  "optNumber n = (case n of None \<Rightarrow> Undefined | Some v \<Rightarrow> Number v)"

definition formTransferParams :: "string \<Rightarrow> string \<Rightarrow> ForgeTxParams \<Rightarrow> jsval" where
  "formTransferParams from' relayerAddress p =
     (let intendedTx = Obj [(''to_'', Str (to p)), (''token_id'', optNumber (tokenId p)),
                            (''amount'', Number (amount p))];
          feeTx = Obj [(''to_'', Str relayerAddress), (''token_id'', optNumber (tokenId p)),
                       (''amount'', Number (relayerFee p))];
          txList = Arr [Arr [Obj [(''from_'', Str from'), (''txs'', Arr [intendedTx, feeTx])]]]
      in txList)"

definition permitParamHash ::
  "Imports \<Rightarrow> 'w TezosToolkit \<Rightarrow> 'w ContractAbstraction \<Rightarrow> string \<Rightarrow> jsval \<Rightarrow> ('w, string) async" where
  "permitParamHash lib tezos contract entrypoint parameters =
     await (sync (spread parameters)) (\<lambda>args.
     await (sync (Encode (parameterSchema contract) entrypoint args)) (\<lambda>encoded.
     await (call (rpc_packData tezos
                    \<lparr>data = encoded, type = typeWithoutAnnotations (parameterSchema contract)\<rparr>)
              (RpcPackData
                    \<lparr>data = encoded, type = typeWithoutAnnotations (parameterSchema contract)\<rparr>))
       (\<lambda>raw_packed.
     await (sync (hex2buf lib (packed raw_packed))) (\<lambda>buf.
     return (blake2bHex lib buf None 32)))))"

definition getUnpackedUniques :: "string \<Rightarrow> string \<Rightarrow> number \<Rightarrow> string \<Rightarrow> PackDataParams" where
  "getUnpackedUniques contractAddress chainId currentPermitCount permitHash =
     \<lparr>data = Prim ''Pair''
        [Prim ''Pair'' [MString contractAddress, MString chainId],
         Prim ''Pair'' [MInt (number_toString currentPermitCount), MBytes permitHash]],
      type = Prim ''pair''
        [Prim ''pair'' [Prim ''address'' [], Prim ''chain_id'' []],
         Prim ''pair'' [Prim ''nat'' [], Prim ''bytes'' []]]\<rparr>"

text \<open>\<open>storage.permit_counter.toNumber()\<close>; a storage without the field throws.\<close>

definition permit_counter_toNumber :: "Storage \<Rightarrow> error + number" where
  "permit_counter_toNumber st =
     (case permit_counter st of
        None \<Rightarrow> Inl (TypeError ''Cannot read properties of undefined'')
      | Some c \<Rightarrow> Inr (toNumber c))"

definition createPermitPayload ::
  "Imports \<Rightarrow> 'w TezosToolkit \<Rightarrow> string \<Rightarrow> string \<Rightarrow> jsval
     \<Rightarrow> ('w, string \<times> string \<times> string) async" where
  "createPermitPayload lib tezos contractAddress entrypoint params =
     await (call (wallet_at tezos contractAddress) (WalletAt contractAddress)) (\<lambda>contract.
     await (call (storage contract) (ContractStorage (address contract))) (\<lambda>storage.
     await (call (signer_publicKey tezos) SignerPublicKey) (\<lambda>signerKey.
     await (permitParamHash lib tezos contract entrypoint params) (\<lambda>paramHash.
     await (call (rpc_getChainId tezos) RpcGetChainId) (\<lambda>chainId.
     await (sync (permit_counter_toNumber storage)) (\<lambda>currentPermitCount.
     await (call (rpc_packData tezos
                    (getUnpackedUniques contractAddress chainId currentPermitCount paramHash))
              (RpcPackData
                    (getUnpackedUniques contractAddress chainId currentPermitCount paramHash)))
       (\<lambda>packed.
     return (signerKey, PackDataResponse.packed packed, paramHash))))))))"

text \<open>\<open>Pick<PermitParams, "pubkey" | "signature" | "hash">\<close>\<close>

record PermitPick =
  pubkey :: string
  signature :: string
  hash :: string

definition forgeTxAndParams ::
  "Imports \<Rightarrow> 'w TezosToolkit \<Rightarrow> ForgeTxParams \<Rightarrow> ('w, jsval \<times> PermitPick) async" where
  "forgeTxAndParams lib tezos p =
     await (call (wallet_pkh tezos) WalletPkh) (\<lambda>from'.
     (let transferParams = formTransferParams from' RELAYER_ADDRESS p in
     await (createPermitPayload lib tezos (tokenAddress p) ''transfer'' transferParams)
       (\<lambda>(pubkey, payload, hash).
     await (call (signer_sign tezos payload) (SignerSign payload)) (\<lambda>signed.
     return (transferParams, \<lparr>pubkey = pubkey, signature = sig signed, hash = hash\<rparr>)))))"

record CallParams =
  entrypoint :: string
  params :: jsval

record PermitParams = PermitPick +
  contractAddress :: string
  callParams :: CallParams

definition estimateAsBatch ::
  "'w TezosToolkit \<Rightarrow> ReadOnlySigner \<Rightarrow> TransferParams list \<Rightarrow> ('w, Estimate list) async" where
  "estimateAsBatch tezos estimator txs =
     call (estimate_batch tezos estimator
             (map (\<lambda>tParams. \<lparr>kind = TRANSACTION, tParams = tParams\<rparr>) txs))
          (EstimateBatch estimator
             (map (\<lambda>tParams. \<lparr>kind = TRANSACTION, tParams = tParams\<rparr>) txs))"

text \<open>
  Calling \<open>contract.methods[name](a, b, ...).toTransferParams({})\<close> with the arguments
  \<open>args\<close>; a name that is no entrypoint of the contract is not a function.
\<close>

definition callMethod ::
  "'w ContractAbstraction \<Rightarrow> string \<Rightarrow> jsval list \<Rightarrow> error + TransferParams" where
  "callMethod contract name args =
     (case methods contract name of
        None \<Rightarrow> Inl (TypeError ''is not a function'')
      | Some m \<Rightarrow> m args)"

text \<open>
  Calling \<open>contract.methods[name](...v).toTransferParams({})\<close>: the arguments are spread
  before the call is made.
\<close>

definition callMethodSpread ::
  "'w ContractAbstraction \<Rightarrow> string \<Rightarrow> jsval \<Rightarrow> error + TransferParams" where
  "callMethodSpread contract name v =
     (case spread v of
        Inl e \<Rightarrow> Inl e
      | Inr args \<Rightarrow> callMethod contract name args)"

text \<open>The loop \<open>for (let est of estimates) totalEstimate += est.suggestedFeeMutez\<close>.\<close>

fun sumFees :: "number \<Rightarrow> Estimate list \<Rightarrow> number" where
  "sumFees totalEstimate [] = totalEstimate"
| "sumFees totalEstimate (est # estimates) =
     sumFees (js_plus totalEstimate (suggestedFeeMutez est)) estimates"

definition estimate :: "'w TezosToolkit \<Rightarrow> PermitParams \<Rightarrow> ('w, number) async" where
  "estimate tezos permitParams =
     (let estimator = \<lparr>pkh = ESTIMATOR_ADDRESS, pk = ESTIMATOR_PUBLIC_KEY\<rparr> in
     await (call (contract_at tezos estimator (contractAddress permitParams))
              (ContractAt estimator (contractAddress permitParams))) (\<lambda>contract.
     await (sync (callMethod contract ''permit''
              [Str (pubkey permitParams), Str (signature permitParams), Str (hash permitParams)]))
       (\<lambda>permit.
     await (sync (callMethodSpread contract (entrypoint (callParams permitParams))
              (params (callParams permitParams)))) (\<lambda>feeTransfer.
     await (estimateAsBatch tezos estimator [permit, feeTransfer]) (\<lambda>estimates.
     return (sumFees (Num 0) estimates))))))"

subsection \<open>Observing a run\<close>

text \<open>The error an awaited call threw, if it threw.\<close>

definition err :: "error + 'a \<Rightarrow> error option" where
  "err r = (case r of Inl e \<Rightarrow> Some e | Inr _ \<Rightarrow> None)"

fun thrown :: "'w event \<Rightarrow> error option" where
  "thrown (WalletPkh r) = err r"
| "thrown (WalletAt a r) = err r"
| "thrown (ContractStorage a r) = err r"
| "thrown (SignerPublicKey r) = err r"
| "thrown (RpcPackData req r) = err r"
| "thrown (RpcGetChainId r) = err r"
| "thrown (SignerSign bytes r) = err r"
| "thrown (ContractAt s a r) = err r"
| "thrown (EstimateBatch s ops r) = err r"

text \<open>Which capability an event is a call of.\<close>

datatype step =
    GetPkh | GetContract | ReadStorage | GetPublicKey | PackData | GetChainId | Sign
  | GetContractAs | Simulate

fun step_of :: "'w event \<Rightarrow> step" where
  "step_of (WalletPkh r) = GetPkh"
| "step_of (WalletAt a r) = GetContract"
| "step_of (ContractStorage a r) = ReadStorage"
| "step_of (SignerPublicKey r) = GetPublicKey"
| "step_of (RpcPackData req r) = PackData"
| "step_of (RpcGetChainId r) = GetChainId"
| "step_of (SignerSign bytes r) = Sign"
| "step_of (ContractAt s a r) = GetContractAs"
| "step_of (EstimateBatch s ops r) = Simulate"

text \<open>
  A trace stops at the first throw: every call but the last returned, and a throw of
  the last call is the result of the run.
\<close>

definition fail_stop :: "error + 'a \<Rightarrow> 'w event list \<Rightarrow> bool" where
  "fail_stop r evs =
     (list_all (\<lambda>ev. thrown ev = None) (butlast evs) \<and>
      (evs = [] \<or> (case thrown (last evs) of None \<Rightarrow> True | Some e \<Rightarrow> r = Inl e)))"

text \<open>
  A computation follows the steps \<open>ks\<close>: each of its runs is fail-stop, makes the calls
  of \<open>ks\<close> in this order from the first on, and makes all of them when it returns.
\<close>

definition follows :: "step list \<Rightarrow> ('w, 'a) async \<Rightarrow> bool" where
  "follows ks m =
     (\<forall>w. case m w of (r, evs, w') \<Rightarrow>
        fail_stop r evs \<and> map step_of evs = take (length evs) ks \<and>
        (isl r \<or> length evs = length ks))"

subsection \<open>Test doubles\<close>

text \<open>
  A world that is the permit counter of the token contract's storage, and a toolkit,
  a contract and library functions that answer every call.
\<close>

definition double_contract :: "nat ContractAbstraction" where
  "double_contract =
     \<lparr>address = ''KT1Token'',
      parameterSchema =
        \<lparr>Encode = (\<lambda>ep args. Inr (Prim ep [Seq []])),
         typeWithoutAnnotations = Prim ''list'' []\<rparr>,
      storage = (\<lambda>w. (Inr \<lparr>permit_counter = Some w\<rparr>, w)),
      methods = (\<lambda>name. if name = ''permit'' \<or> name = ''transfer''
                          then Some (\<lambda>args. Inr \<lparr>tp_to = ''KT1Token'', tp_entrypoint = name,
                                                   tp_value = Seq []\<rparr>)
                          else None)\<rparr>"

definition double_tezos :: "nat TezosToolkit" where
  "double_tezos =
     \<lparr>wallet_pkh = (\<lambda>w. (Inr ''tz1Alice'', w)),
      wallet_at = (\<lambda>a w. (Inr double_contract, w)),
      signer_publicKey = (\<lambda>w. (Inr ''edpkAlice'', w)),
      signer_sign = (\<lambda>bytes w. (Inr \<lparr>sig = ''edsig'' @ bytes\<rparr>, w)),
      rpc_packData = (\<lambda>req w. (Inr \<lparr>packed = (case data req of
                                                    Prim p args \<Rightarrow> if p = ''Pair'' then ''0507'' else ''0502''
                                                  | _ \<Rightarrow> ''05'')\<rparr>, w)),
      rpc_getChainId = (\<lambda>w. (Inr ''NetXdQprcVkpaWU'', w)),
      contract_at = (\<lambda>s a w. (Inr double_contract, w)),
      estimate_batch = (\<lambda>s ops w. (Inr [\<lparr>suggestedFeeMutez = Num 100\<rparr>,
                                          \<lparr>suggestedFeeMutez = Num 250\<rparr>], w))\<rparr>"

definition double_lib :: Imports where
  "double_lib =
     \<lparr>hex2buf = (\<lambda>hex. Inr (map (\<lambda>c. of_nat (of_char c)) hex)),
      blake2bHex = (\<lambda>buf key outlen. ''0e5751c0'')\<rparr>"

definition double_params :: ForgeTxParams where
  "double_params =
     \<lparr>to = ''tz1Bob'', tokenAddress = ''KT1Token'', tokenId = Some (Num 0),
      amount = Num 1000, relayerFee = Num 25\<rparr>"

definition double_permit :: PermitParams where
  "double_permit =
     \<lparr>pubkey = ''edpkAlice'', signature = ''edsig0507'', hash = ''0e5751c0'',
      contractAddress = ''KT1Token'',
      callParams = \<lparr>entrypoint = ''transfer'', params = Arr [Arr []]\<rparr>\<rparr>"

text \<open>A signer that refuses to sign, and a node that rejects the simulation.\<close>

definition refusing_tezos :: "nat TezosToolkit" where
  "refusing_tezos =
     double_tezos\<lparr>signer_sign := (\<lambda>bytes w. (Inl (Error ''refused''), w))\<rparr>"

definition rejecting_tezos :: "nat TezosToolkit" where
  "rejecting_tezos =
     double_tezos\<lparr>estimate_batch := (\<lambda>s ops w. (Inl (Error ''rejected''), w))\<rparr>"

text \<open>
  A node whose simulation answers a batch with one more estimate than it was given
  operations (as for a reveal put in front of them), and a node whose first fee is
  \<open>2 ^ 53\<close>.
\<close>

definition revealing_tezos :: "nat TezosToolkit" where
  "revealing_tezos =
     double_tezos\<lparr>estimate_batch :=
       (\<lambda>s ops w. (Inr [\<lparr>suggestedFeeMutez = Num 374\<rparr>, \<lparr>suggestedFeeMutez = Num 610\<rparr>,
                         \<lparr>suggestedFeeMutez = Num 710\<rparr>], w))\<rparr>"

definition costly_tezos :: "nat TezosToolkit" where
  "costly_tezos =
     double_tezos\<lparr>estimate_batch :=
       (\<lambda>s ops w. (Inr [\<lparr>suggestedFeeMutez = Num 9007199254740992\<rparr>,
                         \<lparr>suggestedFeeMutez = Num 1\<rparr>], w))\<rparr>"

section \<open>Properties\<close>

subsection \<open>Sequencing\<close>

lemma return_eq: "return a w = (r, evs, w') \<longleftrightarrow> r = Inr a \<and> evs = [] \<and> w' = w"
  by (auto simp: return_def)

lemma sync_eq: "sync x w = (r, evs, w') \<longleftrightarrow> x = r \<and> evs = [] \<and> w' = w"
  by (auto simp: sync_def)

lemma call_eq: "call cap ev w = (r, evs, w') \<longleftrightarrow> cap w = (r, w') \<and> evs = [ev r]"
  by (auto simp: call_def split: prod.splits)

lemma await_Inr:
  "await m f w = (Inr b, evs, w') \<longleftrightarrow>
     (\<exists>a evs1 w1 evs2. m w = (Inr a, evs1, w1) \<and> f a w1 = (Inr b, evs2, w') \<and> evs = evs1 @ evs2)"
  by (auto simp: await_def split: prod.splits sum.splits)

lemma await_cases:
  assumes "await m f w = (r, evs, w')"
  obtains (throws) e where "m w = (Inl e, evs, w')" and "r = Inl e"
  | (continues) a evs1 w1 evs2 where "m w = (Inr a, evs1, w1)" and "f a w1 = (r, evs2, w')"
      and "evs = evs1 @ evs2"
  using assms by (auto simp: await_def split: prod.splits sum.splits)

subsection \<open>Every run is fail-stop and in order\<close>

lemma fail_stop_Nil: "fail_stop r []"
  by (simp add: fail_stop_def)

lemma fail_stop_single: "thrown ev = err r \<Longrightarrow> fail_stop r [ev]"
  by (cases r) (simp_all add: fail_stop_def err_def)

lemma fail_stop_returned:
  assumes "fail_stop (Inr a) evs"
  shows "list_all (\<lambda>ev. thrown ev = None) evs"
proof (cases evs rule: rev_cases)
  case Nil
  then show ?thesis by simp
next
  case (snoc xs x)
  then show ?thesis using assms by (auto simp: fail_stop_def split: option.splits)
qed

lemma fail_stop_append:
  assumes "fail_stop (Inr a) evs1" and "fail_stop r evs2"
  shows "fail_stop r (evs1 @ evs2)"
proof (cases "evs2 = []")
  case True
  have "list_all (\<lambda>ev. thrown ev = None) evs1" using assms(1) by (rule fail_stop_returned)
  then show ?thesis
    by (cases evs1 rule: rev_cases) (auto simp: True fail_stop_def)
next
  case False
  have "list_all (\<lambda>ev. thrown ev = None) evs1" using assms(1) by (rule fail_stop_returned)
  then show ?thesis using assms(2) False
    by (simp add: fail_stop_def butlast_append)
qed

lemma fail_stop_thrown:
  assumes "fail_stop r evs" and "ev \<in> set evs" and "thrown ev = Some e"
  shows "r = Inl e \<and> last evs = ev"
proof (cases evs rule: rev_cases)
  case Nil
  then show ?thesis using assms(2) by simp
next
  case (snoc xs x)
  have "ev \<notin> set xs" using assms(1,3) by (auto simp: snoc fail_stop_def list_all_iff)
  then have "ev = x" using assms(2) by (simp add: snoc)
  then show ?thesis using assms(1,3) by (simp add: snoc fail_stop_def)
qed

lemma follows_return: "follows [] (return a)"
  by (simp add: follows_def return_def fail_stop_Nil)

lemma follows_sync: "follows [] (sync x)"
  by (simp add: follows_def sync_def fail_stop_Nil)

lemma follows_call:
  assumes "\<And>r. thrown (ev r) = err r" and "\<And>r. step_of (ev r) = k"
  shows "follows [k] (call cap ev)"
  unfolding follows_def call_def
  by (auto simp: assms fail_stop_single split: prod.splits)

lemma fail_stop_Inl: "fail_stop (Inl e :: error + 'a) evs \<Longrightarrow> fail_stop (Inl e :: error + 'b) evs"
  by (simp add: fail_stop_def split: option.splits)

lemma followsD:
  assumes "follows ks m" and "m w = (r, evs, w')"
  shows "fail_stop r evs" and "map step_of evs = take (length evs) ks"
    and "isl r \<or> length evs = length ks"
proof -
  from assms(1) have "case m w of (r, evs, w') \<Rightarrow>
      fail_stop r evs \<and> map step_of evs = take (length evs) ks \<and>
      (isl r \<or> length evs = length ks)"
    unfolding follows_def by (rule spec)
  then show "fail_stop r evs" and "map step_of evs = take (length evs) ks"
    and "isl r \<or> length evs = length ks"
    by (simp_all add: assms(2))
qed

lemma follows_await:
  assumes m: "follows ks1 m" and f: "\<And>a. follows ks2 (f a)"
  shows "follows (ks1 @ ks2) (await m f)"
  unfolding follows_def
proof (intro allI)
  fix w
  obtain r evs w' where run: "await m f w = (r, evs, w')" by (cases "await m f w")
  have "fail_stop r evs \<and> map step_of evs = take (length evs) (ks1 @ ks2) \<and>
        (isl r \<or> length evs = length (ks1 @ ks2))"
    using run
  proof (cases rule: await_cases)
    case (throws e)
    have a: "fail_stop r evs" "map step_of evs = take (length evs) ks1"
      using followsD [OF m throws(1)] by (auto intro: fail_stop_Inl simp: throws(2))
    have "length evs \<le> length ks1"
      using arg_cong [OF a(2), of length] by simp
    then show ?thesis using a throws by simp
  next
    case (continues a evs1 w1 evs2)
    have 1: "fail_stop (Inr a) evs1" "map step_of evs1 = ks1" "length evs1 = length ks1"
      using followsD [OF m continues(1)] by auto
    have 2: "fail_stop r evs2" "map step_of evs2 = take (length evs2) ks2"
      "isl r \<or> length evs2 = length ks2"
      using followsD [OF f continues(2)] by auto
    show ?thesis using 1 2 by (auto simp: continues(3) fail_stop_append)
  qed
  then show "case await m f w of (r, evs, w') \<Rightarrow>
      fail_stop r evs \<and> map step_of evs = take (length evs) (ks1 @ ks2) \<and>
      (isl r \<or> length evs = length (ks1 @ ks2))"
    by (simp add: run)
qed

lemma follows_then_sync:
  assumes "\<And>a. follows ks (f a)"
  shows "follows ks (await (sync x) f)"
  using follows_await [OF follows_sync, of ks f x] assms by simp

lemma follows_then_call:
  assumes "\<And>r. thrown (ev r) = err r" and "\<And>r. step_of (ev r) = k"
    and "\<And>a. follows ks (f a)"
  shows "follows (k # ks) (await (call cap ev) f)"
  using follows_await [OF follows_call [of ev k cap], of ks f] assms by simp

lemma follows_permitParamHash:
  "follows [PackData] (permitParamHash lib tezos contract ep ps)"
  unfolding permitParamHash_def
  by (intro follows_then_sync follows_then_call follows_return) simp_all

lemma follows_then_permitParamHash:
  assumes "\<And>a. follows ks (f a)"
  shows "follows (PackData # ks) (await (permitParamHash lib tezos contract ep ps) f)"
  using follows_await [OF follows_permitParamHash, of ks f] assms by simp

lemma follows_createPermitPayload:
  "follows [GetContract, ReadStorage, GetPublicKey, PackData, GetChainId, PackData]
     (createPermitPayload lib tezos addr ep ps)"
  unfolding createPermitPayload_def
  by (intro follows_then_sync follows_then_call follows_then_permitParamHash follows_return)
    simp_all

lemma follows_forgeTxAndParams:
  "follows [GetPkh, GetContract, ReadStorage, GetPublicKey, PackData, GetChainId, PackData, Sign]
     (forgeTxAndParams lib tezos p)"
proof -
  have "follows ([GetPkh] @ [GetContract, ReadStorage, GetPublicKey, PackData, GetChainId, PackData] @ [Sign])
     (forgeTxAndParams lib tezos p)"
    unfolding forgeTxAndParams_def Let_def split_def
    by (intro follows_await follows_call follows_createPermitPayload follows_return
        follows_await [where ?ks2.0 = "[]", simplified]) simp_all
  then show ?thesis by simp
qed

lemma follows_estimate:
  "follows [GetContractAs, Simulate] (estimate tezos pp)"
  unfolding estimate_def estimateAsBatch_def Let_def
  by (intro follows_then_sync follows_then_call follows_return
      follows_await [where ?ks1.0 = "[Simulate]" and ?ks2.0 = "[]", simplified] follows_call)
    simp_all

subsection \<open>Numbers\<close>

lemma bitlen_le: "n < 2 ^ k \<Longrightarrow> bitlen n \<le> k"
proof (induction k arbitrary: n)
  case 0
  then show ?case by (simp add: bitlen.simps)
next
  case (Suc k)
  have "n div 2 < 2 ^ k" using Suc.prems by simp
  then have "bitlen (n div 2) \<le> k" by (rule Suc.IH)
  then show ?case by (subst bitlen.simps) simp
qed

lemma bitlen_lower: "0 < n \<Longrightarrow> 2 ^ (bitlen n - 1) \<le> n"
proof (induction n rule: bitlen.induct)
  case (1 n)
  show ?case
  proof (cases "n div 2 = 0")
    case True
    then have "bitlen (n div 2) = 0" by (simp add: bitlen.simps)
    then show ?thesis using "1.prems" by (subst bitlen.simps) simp
  next
    case False
    then have pos: "0 < n div 2" by simp
    have ih: "2 ^ (bitlen (n div 2) - 1) \<le> n div 2"
      using "1.IH" "1.prems" pos by simp
    have bl: "0 < bitlen (n div 2)" using pos by (subst bitlen.simps) simp
    have "bitlen n - 1 = Suc (bitlen (n div 2) - 1)"
      using "1.prems" bl by (subst bitlen.simps) simp
    then have "(2::nat) ^ (bitlen n - 1) = 2 * 2 ^ (bitlen (n div 2) - 1)" by simp
    also have "\<dots> \<le> 2 * (n div 2)" using ih by simp
    also have "\<dots> \<le> n" by simp
    finally show ?thesis .
  qed
qed

lemma bitlen_upper: "n < 2 ^ bitlen n"
proof (induction n rule: bitlen.induct)
  case (1 n)
  show ?case
  proof (cases "n = 0")
    case True
    then show ?thesis by simp
  next
    case False
    then have "n div 2 < 2 ^ bitlen (n div 2)" using "1.IH" by simp
    then have "n < 2 * 2 ^ bitlen (n div 2)" by simp
    then show ?thesis using False by (subst bitlen.simps) simp
  qed
qed

lemma bitlen_gt: "2 ^ k \<le> n \<Longrightarrow> k < bitlen n"
proof (rule ccontr)
  assume a: "2 ^ k \<le> n" and "\<not> k < bitlen n"
  then have le: "bitlen n \<le> k" by simp
  have "n < 2 ^ bitlen n" by (rule bitlen_upper)
  also have "\<dots> \<le> 2 ^ k" using le by (simp add: power_increasing)
  finally show False using a by simp
qed

text \<open>Below \<open>2 ^ 53\<close> every natural number is a double: \<open>toNumber\<close> is exact.\<close>

lemma toNumber_small: "n < 2 ^ 53 \<Longrightarrow> toNumber n = Num n"
proof -
  assume a: "n < 2 ^ 53"
  then have "bitlen n - 53 = 0" using bitlen_le [of n 53] by simp
  moreover have "n < 2 ^ 1024"
    using a less_le_trans [of n "2 ^ 53" "2 ^ 1024"] by (simp add: power_increasing)
  ultimately show ?thesis by (simp add: toNumber_def Let_def)
qed

lemma toNumber_2_53: "toNumber (2 ^ 53) = Num (2 ^ 53)"
  by (simp add: toNumber_def Let_def bitlen.simps)

lemma toNumber_exact: "n \<le> 2 ^ 53 \<Longrightarrow> toNumber n = Num n"
  using toNumber_small [of n] toNumber_2_53 by (cases "n = 2 ^ 53") auto

text \<open>The rounding of a number from \<open>2 ^ 53\<close> on is made of a significand and a shift.\<close>

lemma toNumber_shape:
  assumes "2 ^ 53 \<le> v" and "toNumber v = Num u"
  obtains m e where "u = m * 2 ^ e" and "0 < e" and "e = bitlen v - 53"
    and "v div 2 ^ e \<le> m" and "2 ^ 52 \<le> v div 2 ^ e"
proof -
  define e where "e = bitlen v - 53"
  define q where "q = v div 2 ^ e"
  define m where "m = (if 2 ^ e < 2 * (v mod 2 ^ e) \<or> (2 * (v mod 2 ^ e) = 2 ^ e \<and> odd q)
                        then q + 1 else q)"
  have "toNumber v = (if 2 ^ 1024 \<le> m * 2 ^ e then Infinity else Num (m * 2 ^ e))"
    unfolding toNumber_def Let_def e_def q_def m_def ..
  then have u: "u = m * 2 ^ e"
    using assms(2) by (metis number.distinct(1) number.inject)
  have bl: "53 < bitlen v" using assms(1) by (rule bitlen_gt)
  have "0 < v" using assms(1) by (cases "v = 0") auto
  then have low: "2 ^ (bitlen v - 1) \<le> v" by (rule bitlen_lower)
  have split: "bitlen v - 1 = 52 + e" using bl by (simp add: e_def)
  have "(2::nat) ^ 52 * 2 ^ e \<le> v" using low unfolding split by (simp add: power_add)
  then have q52: "2 ^ 52 \<le> q" unfolding q_def
    by (simp add: less_eq_div_iff_mult_less_eq)
  have qm: "q \<le> m" by (simp add: m_def)
  show thesis
    using that [of m e] u bl q52 qm by (simp add: e_def q_def)
qed

lemma toNumber_large:
  assumes "2 ^ 53 \<le> v" and "toNumber v = Num u"
  shows "2 ^ 53 \<le> u"
proof -
  obtain m e where u: "u = m * 2 ^ e" and e: "0 < e" and q: "v div 2 ^ e \<le> m"
    "2 ^ 52 \<le> v div 2 ^ e"
    using assms by (rule toNumber_shape)
  have "2 ^ 52 \<le> m" using q by simp
  moreover have "(2::nat) ^ 1 \<le> 2 ^ e" using e by (intro power_increasing) simp_all
  ultimately have "(2::nat) ^ 52 * 2 ^ 1 \<le> m * 2 ^ e" by (intro mult_le_mono)
  then show ?thesis by (simp add: u)
qed

lemma toNumber_above:
  assumes "2 ^ 53 + 2 \<le> v" and "toNumber v = Num u"
  shows "2 ^ 53 + 2 \<le> u"
proof -
  have v53: "(2::nat) ^ 53 \<le> v" using assms(1) by simp
  obtain m e where u: "u = m * 2 ^ e" and e: "0 < e" and q: "v div 2 ^ e \<le> m"
    "2 ^ 52 \<le> v div 2 ^ e"
    using v53 assms(2) by (rule toNumber_shape)
  show ?thesis
  proof (cases "e = 1")
    case True
    have "(2 ^ 53 + 2) div 2 \<le> v div 2" using assms(1) by (rule div_le_mono)
    then have "2 ^ 52 + 1 \<le> m" using q(1) by (simp add: True)
    then have "(2 ^ 52 + 1) * 2 \<le> m * 2" by (rule mult_le_mono1)
    then show ?thesis by (simp add: u True)
  next
    case False
    then have "2 \<le> e" using e by simp
    then have "(2::nat) ^ 2 \<le> 2 ^ e" by (intro power_increasing) simp_all
    with q have "(2::nat) ^ 52 * 2 ^ 2 \<le> m * 2 ^ e" by (intro mult_le_mono) simp_all
    then show ?thesis by (simp add: u)
  qed
qed

text \<open>Of a number below \<open>2 ^ 53\<close> the shortest digits are its own.\<close>

lemma shortest_exact:
  assumes "x < 2 ^ 53" and "shortest x j = (s, z)"
  shows "x = s * 10 ^ z"
  using assms(2)
proof (induction j)
  case 0
  then show ?case by (simp add: shortest.simps)
next
  case (Suc j)
  define scale :: nat where "scale = 10 ^ Suc j"
  define lo where "lo = x div scale"
  have lo_le: "lo * scale \<le> x" by (simp add: lo_def)
  have okLo: "x = lo * scale" if "toNumber (lo * scale) = Num x"
  proof -
    have "lo * scale < 2 ^ 53" using lo_le assms(1) by simp
    then have "toNumber (lo * scale) = Num (lo * scale)" by (rule toNumber_small)
    with that show ?thesis by simp
  qed
  have notHi: "(toNumber ((lo + 1) * scale) = Num x) = False"
  proof (cases "(lo + 1) * scale < 2 ^ 53")
    case True
    then have "toNumber ((lo + 1) * scale) = Num ((lo + 1) * scale)" by (rule toNumber_small)
    moreover have "x < (lo + 1) * scale"
      unfolding lo_def scale_def
      using div_less_iff_less_mult [of "10 ^ Suc j" x "x div 10 ^ Suc j + 1"] by simp
    ultimately show ?thesis by simp
  next
    case False
    then have "2 ^ 53 \<le> (lo + 1) * scale" by simp
    then have "2 ^ 53 \<le> x" if "toNumber ((lo + 1) * scale) = Num x"
      using that by (rule toNumber_large)
    then show ?thesis using assms(1) by auto
  qed
  have eq: "shortest x (Suc j) =
      (if toNumber (lo * scale) = Num x then (lo, Suc j) else shortest x j)"
    unfolding lo_def scale_def
    by (simp only: shortest.simps Let_def notHi [unfolded lo_def scale_def] simp_thms if_False)
  show ?case
  proof (cases "toNumber (lo * scale) = Num x")
    case True
    then have "s = lo" "z = Suc j" using eq Suc.prems by simp_all
    then show ?thesis using okLo [OF True] by (simp add: scale_def)
  next
    case False
    then have "shortest x j = (s, z)" using eq Suc.prems by simp
    then show ?thesis by (rule Suc.IH)
  qed
qed

lemma dec_times_10: "0 < n \<Longrightarrow> dec (n * 10) = dec n @ [digit 0]"
  by (subst dec.simps) simp

lemma dec_times_pow10: "0 < s \<Longrightarrow> dec (s * 10 ^ z) = dec s @ replicate z (digit 0)"
proof (induction z)
  case 0
  then show ?case by simp
next
  case (Suc z)
  have "dec (s * 10 ^ Suc z) = dec ((s * 10 ^ z) * 10)" by (simp add: mult_ac)
  also have "\<dots> = dec (s * 10 ^ z) @ [digit 0]" using Suc.prems by (intro dec_times_10) simp
  also have "\<dots> = dec s @ replicate (Suc z) (digit 0)"
    using Suc by (simp add: replicate_append_same)
  finally show ?case .
qed

lemma length_dec: "x < 10 ^ Suc k \<Longrightarrow> length (dec x) \<le> Suc k"
proof (induction k arbitrary: x)
  case 0
  then show ?case by (subst dec.simps) simp
next
  case (Suc k)
  have "x div 10 < 10 ^ Suc k" using Suc.prems by simp
  then have "length (dec (x div 10)) \<le> Suc k" by (rule Suc.IH)
  then show ?case by (subst dec.simps) simp
qed

lemma digit_0: "digit 0 = CHR ''0''"
  by (simp add: digit_def)

lemma number_toString_safe:
  assumes "x < 2 ^ 53"
  shows "number_toString (Num x) = dec x"
proof (cases "x = 0")
  case True
  then show ?thesis by (simp add: dec.simps digit_def)
next
  case False
  obtain s z where sz: "shortest x (length (dec x) - 1) = (s, z)"
    by (cases "shortest x (length (dec x) - 1)")
  have x: "x = s * 10 ^ z" using assms sz by (rule shortest_exact)
  then have "0 < s" using False by (cases "s = 0") auto
  then have d: "dec x = dec s @ replicate z (CHR ''0'')"
    using dec_times_pow10 [of s z] x by (simp add: digit_0)
  have "x < 10 ^ Suc 20" using assms less_trans [of x "2 ^ 53" "10 ^ Suc 20"] by simp
  then have "length (dec x) \<le> 21" using length_dec [of x 20] by simp
  then have "length (dec s) + z \<le> 21" by (simp add: d)
  then show ?thesis using False sz d by simp
qed

text \<open>The counter a safe integer: it is placed in the pair digit for digit.\<close>

lemma number_toString_toNumber:
  "c < 2 ^ 53 \<Longrightarrow> number_toString (toNumber c) = dec c"
  by (simp only: toNumber_small number_toString_safe)

text \<open>\<open>2 ^ 53\<close> itself prints all its digits.\<close>

lemma shortest_2_53: "shortest 9007199254740992 j = (9007199254740992, 0)"
proof (induction j)
  case 0
  show ?case by (simp add: shortest.simps)
next
  case (Suc j)
  define x :: nat where "x = 9007199254740992"
  define scale :: nat where "scale = 10 ^ Suc j"
  define lo where "lo = x div scale"
  have ten: "10 dvd scale" by (simp add: scale_def)
  have "lo * scale \<noteq> x"
  proof
    assume "lo * scale = x"
    then have "10 dvd x" using ten by (metis dvd_mult)
    then show False by (simp add: x_def)
  qed
  moreover have "lo * scale \<le> x" by (simp add: lo_def)
  ultimately have "lo * scale < 2 ^ 53" by (simp add: x_def)
  then have "toNumber (lo * scale) = Num (lo * scale)" by (rule toNumber_small)
  then have notLo: "(toNumber (lo * scale) = Num x) = False"
    using \<open>lo * scale \<noteq> x\<close> by simp
  have gt: "x < (lo + 1) * scale"
    unfolding lo_def scale_def
    using div_less_iff_less_mult [of "10 ^ Suc j" x "x div 10 ^ Suc j + 1"] by simp
  have "even ((lo + 1) * scale)" using ten by (metis dvd_mult dvd_trans even_numeral)
  moreover have "even x" by (simp add: x_def)
  ultimately have "x + 2 \<le> (lo + 1) * scale" using gt by presburger
  then have "2 ^ 53 + 2 \<le> (lo + 1) * scale" by (simp add: x_def)
  then have "2 ^ 53 + 2 \<le> x" if "toNumber ((lo + 1) * scale) = Num x"
    using that by (rule toNumber_above)
  then have notHi: "(toNumber ((lo + 1) * scale) = Num x) = False"
    by (auto simp: x_def)
  have "shortest x (Suc j) = shortest x j"
    unfolding lo_def scale_def
    by (simp only: shortest.simps Let_def notLo [unfolded lo_def scale_def]
        notHi [unfolded lo_def scale_def] simp_thms if_False)
  then show ?case using Suc by (simp only: x_def)
qed

lemma dec_2_53: "dec 9007199254740992 = ''9007199254740992''"
  by (simp add: dec.simps digit_def)

lemma number_toString_2_53: "number_toString (Num 9007199254740992) = ''9007199254740992''"
  by (simp add: shortest_2_53 dec_2_53)

lemma toNumber_2_53_1: "toNumber 9007199254740993 = Num 9007199254740992"
  by (simp add: toNumber_def Let_def bitlen.simps)

lemma dec_5: "dec 5 = ''5''"
  by (simp add: dec.simps digit_def)

lemma js_plus_exact: "a + b \<le> 2 ^ 53 \<Longrightarrow> js_plus (js_plus (Num 0) (Num a)) (Num b) = Num (a + b)"
  by (simp add: toNumber_exact)

text \<open>A multiple of \<open>2 ^ k\<close> below \<open>2 ^ (53 + k)\<close> is a double: \<open>toNumber\<close> is exact on it.\<close>

lemma toNumber_double:
  assumes "2 ^ k dvd v" and "v < 2 ^ (53 + k)" and "v < 2 ^ 1024"
  shows "toNumber v = Num v"
proof -
  define e where "e = bitlen v - 53"
  have "bitlen v \<le> 53 + k" using assms(2) by (rule bitlen_le)
  then have "e \<le> k" by (simp add: e_def)
  then have "(2::nat) ^ e dvd 2 ^ k" by (rule le_imp_power_dvd)
  then have dvd: "2 ^ e dvd v" using assms(1) by (rule dvd_trans)
  then have r: "v mod 2 ^ e = 0" by simp
  have q: "v div 2 ^ e * 2 ^ e = v" using dvd by simp
  have "toNumber v =
      (if 2 ^ 1024 \<le> v div 2 ^ e * 2 ^ e then Infinity else Num (v div 2 ^ e * 2 ^ e))"
    unfolding toNumber_def Let_def e_def [symmetric] by (simp add: r)
  then show ?thesis using assms(3) by (simp add: q)
qed

text \<open>Rounding never goes below a double that the number is not below.\<close>

lemma toNumber_mono_double:
  assumes "toNumber v = Num u" and "d \<le> v" and "2 ^ k dvd d" and "d < 2 ^ (53 + k)"
  shows "d \<le> u"
proof (cases "v < 2 ^ 53")
  case True
  then have "toNumber v = Num v" by (rule toNumber_small)
  then show ?thesis using assms(1,2) by simp
next
  case False
  then have "2 ^ 53 \<le> v" by simp
  then obtain m e where u: "u = m * 2 ^ e" and e: "0 < e" and q: "v div 2 ^ e \<le> m"
    "2 ^ 52 \<le> v div 2 ^ e"
    using assms(1) by (rule toNumber_shape)
  show ?thesis
  proof (cases "e \<le> k")
    case True
    then have "(2::nat) ^ e dvd 2 ^ k" by (rule le_imp_power_dvd)
    then have "2 ^ e dvd d" using assms(3) by (rule dvd_trans)
    then obtain d' where d: "d = d' * 2 ^ e" by (auto simp: dvd_def mult.commute)
    have "d' \<le> v div 2 ^ e" using assms(2) by (simp add: d less_eq_div_iff_mult_less_eq)
    then have "d' \<le> m" using q(1) by simp
    then show ?thesis by (simp add: d u)
  next
    case False
    then have "Suc k \<le> e" by simp
    then have "(2::nat) ^ Suc k \<le> 2 ^ e" by (intro power_increasing) simp_all
    moreover have "2 ^ 52 \<le> m" using q by simp
    ultimately have "(2::nat) ^ 52 * 2 ^ Suc k \<le> m * 2 ^ e" by (intro mult_le_mono)
    moreover have "(2::nat) ^ 52 * 2 ^ Suc k = 2 ^ (53 + k)" by (simp add: power_add)
    ultimately show ?thesis using assms(4) by (simp add: u)
  qed
qed

lemma toNumber_2_54_6: "toNumber 18014398509481990 = Num 18014398509481992"
  by (simp add: toNumber_def Let_def bitlen.simps)

text \<open>
  Up to \<open>2 ^ 54 + 8\<close> no shorter significand reads back as a number but its own
  digits: the first number printed with other digits is 18014398509481992.
\<close>

lemma short_below:
  assumes "x < 18014398509481992" and "v \<le> x" and "10 dvd v" and "toNumber v = Num x"
  shows "v = x"
proof (cases "v < 18014398509481984")
  case True
  have "2 ^ 1 dvd v" using assms(3) by (metis dvd_trans even_numeral power_one_right)
  moreover have "v < 2 ^ (53 + 1)" using True by simp
  moreover have "v < 2 ^ 1024"
    using True less_trans [of v "18014398509481984" "2 ^ 1024"] by simp
  ultimately have "toNumber v = Num v" by (rule toNumber_double)
  then show ?thesis using assms(4) by simp
next
  case False
  then have "v = 18014398509481990" using assms(1,2,3) by presburger
  then show ?thesis using assms(1,4) by (simp add: toNumber_2_54_6)
qed

lemma short_above:
  assumes "x < 18014398509481992" and "x < v" and "10 dvd v"
  shows "toNumber v \<noteq> Num x"
proof
  assume eq: "toNumber v = Num x"
  show False
  proof (cases "v < 18014398509481984")
    case True
    have "2 ^ 1 dvd v" using assms(3) by (metis dvd_trans even_numeral power_one_right)
    moreover have "v < 2 ^ (53 + 1)" using True by simp
    moreover have "v < 2 ^ 1024"
      using True less_trans [of v "18014398509481984" "2 ^ 1024"] by simp
    ultimately have "toNumber v = Num v" by (rule toNumber_double)
    then show False using eq assms(2) by simp
  next
    case False
    then have "v = 18014398509481990 \<or> 18014398509482000 \<le> v"
      using assms(2,3) by presburger
    then consider "v = 18014398509481990" | "18014398509482000 \<le> v" by blast
    then show False
    proof cases
      case 1
      then show False using eq assms(1) by (simp add: toNumber_2_54_6)
    next
      case 2
      have "(2::nat) ^ 2 dvd 18014398509482000" by simp
      moreover have "(18014398509482000::nat) < 2 ^ (53 + 2)" by simp
      ultimately have "18014398509482000 \<le> x"
        using toNumber_mono_double [OF eq 2] by blast
      then show False using assms(1) by simp
    qed
  qed
qed

lemma shortest_own_digits:
  assumes "x < 18014398509481992" and "shortest x j = (s, z)"
  shows "x = s * 10 ^ z"
  using assms(2)
proof (induction j)
  case 0
  then show ?case by (simp add: shortest.simps)
next
  case (Suc j)
  define scale :: nat where "scale = 10 ^ Suc j"
  define lo where "lo = x div scale"
  have ten: "10 dvd scale" by (simp add: scale_def)
  have lo_le: "lo * scale \<le> x" by (simp add: lo_def)
  have gt: "x < (lo + 1) * scale"
    unfolding lo_def scale_def
    using div_less_iff_less_mult [of "10 ^ Suc j" x "x div 10 ^ Suc j + 1"] by simp
  have okLo: "x = lo * scale" if "toNumber (lo * scale) = Num x"
    using short_below [OF assms(1) lo_le _ that] ten by simp
  have "toNumber ((lo + 1) * scale) \<noteq> Num x"
    using assms(1) gt by (rule short_above) (use ten in simp)
  then have notHi: "(toNumber ((lo + 1) * scale) = Num x) = False" by simp
  have eq: "shortest x (Suc j) =
      (if toNumber (lo * scale) = Num x then (lo, Suc j) else shortest x j)"
    unfolding lo_def scale_def
    by (simp only: shortest.simps Let_def notHi [unfolded lo_def scale_def] simp_thms if_False)
  show ?case
  proof (cases "toNumber (lo * scale) = Num x")
    case True
    then have "s = lo" "z = Suc j" using eq Suc.prems by simp_all
    then show ?thesis using okLo [OF True] by (simp add: scale_def)
  next
    case False
    then have "shortest x j = (s, z)" using eq Suc.prems by simp
    then show ?thesis by (rule Suc.IH)
  qed
qed

lemma number_toString_own_digits:
  assumes "x < 18014398509481992"
  shows "number_toString (Num x) = dec x"
proof (cases "x = 0")
  case True
  then show ?thesis by (simp add: dec.simps digit_def)
next
  case False
  obtain s z where sz: "shortest x (length (dec x) - 1) = (s, z)"
    by (cases "shortest x (length (dec x) - 1)")
  have x: "x = s * 10 ^ z" using assms sz by (rule shortest_own_digits)
  then have "0 < s" using False by (cases "s = 0") auto
  then have d: "dec x = dec s @ replicate z (CHR ''0'')"
    using dec_times_pow10 [of s z] x by (simp add: digit_0)
  have "x < 10 ^ Suc 20" using assms less_trans [of x "18014398509481992" "10 ^ Suc 20"] by simp
  then have "length (dec x) \<le> 21" using length_dec [of x 20] by simp
  then have "length (dec s) + z \<le> 21" by (simp add: d)
  then show ?thesis using False sz d by simp
qed






text \<open>Adding up fees is exact as long as the sum stays within \<open>2 ^ 53\<close>.\<close>

lemma sumFees_exact:
  assumes "map suggestedFeeMutez ests = map Num fees" and "t + sum_list fees \<le> 2 ^ 53"
  shows "sumFees (Num t) ests = Num (t + sum_list fees)"
  using assms
proof (induction ests arbitrary: t fees)
  case Nil
  then show ?case by simp
next
  case (Cons est ests)
  then obtain a fees' where fees: "fees = a # fees'" and a: "suggestedFeeMutez est = Num a"
    and rest: "map suggestedFeeMutez ests = map Num fees'"
    by (cases fees) auto
  have "t + a \<le> 2 ^ 53" using Cons.prems(2) by (simp add: fees)
  then have "toNumber (t + a) = Num (t + a)" by (rule toNumber_exact)
  moreover have "sumFees (Num (t + a)) ests = Num (t + a + sum_list fees')"
    using rest Cons.prems(2) by (intro Cons.IH) (simp_all add: fees add.assoc)
  ultimately show ?case by (simp add: a fees add.assoc)
qed

lemma number_toString_toNumber_le:
  "c \<le> 2 ^ 53 \<Longrightarrow> number_toString (toNumber c) = dec c"
proof -
  assume le: "c \<le> 2 ^ 53"
  then have "c < 18014398509481992" by simp
  then have "number_toString (Num c) = dec c" by (rule number_toString_own_digits)
  then show ?thesis by (simp only: toNumber_exact [OF le])
qed

subsection \<open>What a returning run did\<close>

lemma permit_counter_toNumber_Inr:
  "permit_counter_toNumber st = Inr n \<longleftrightarrow> (\<exists>c. permit_counter st = Some c \<and> n = toNumber c)"
  by (auto simp: permit_counter_toNumber_def split: option.splits)

lemma permitParamHash_Inr:
  "permitParamHash lib tezos contract ep ps w = (Inr h, evs, w') \<longleftrightarrow>
     (\<exists>args encoded raw buf.
        spread ps = Inr args \<and>
        Encode (parameterSchema contract) ep args = Inr encoded \<and>
        rpc_packData tezos
          \<lparr>data = encoded, type = typeWithoutAnnotations (parameterSchema contract)\<rparr> w
          = (Inr raw, w') \<and>
        evs = [RpcPackData
                 \<lparr>data = encoded, type = typeWithoutAnnotations (parameterSchema contract)\<rparr>
                 (Inr raw)] \<and>
        hex2buf lib (packed raw) = Inr buf \<and>
        h = blake2bHex lib buf None 32)"
  unfolding permitParamHash_def
  by (auto simp add: await_Inr sync_eq call_eq return_eq)

lemma createPermitPayload_Inr:
  "createPermitPayload lib tezos addr ep ps w = (Inr (key, payload, h), evs, w') \<longleftrightarrow>
   (\<exists>contract st c args encoded raw buf chainId raw2 w1 w2 w3 w4 w5.
      wallet_at tezos addr w = (Inr contract, w1) \<and>
      storage contract w1 = (Inr st, w2) \<and>
      signer_publicKey tezos w2 = (Inr key, w3) \<and>
      spread ps = Inr args \<and>
      Encode (parameterSchema contract) ep args = Inr encoded \<and>
      rpc_packData tezos
        \<lparr>data = encoded, type = typeWithoutAnnotations (parameterSchema contract)\<rparr> w3
        = (Inr raw, w4) \<and>
      hex2buf lib (packed raw) = Inr buf \<and>
      h = blake2bHex lib buf None 32 \<and>
      rpc_getChainId tezos w4 = (Inr chainId, w5) \<and>
      permit_counter st = Some c \<and>
      rpc_packData tezos (getUnpackedUniques addr chainId (toNumber c) h) w5
        = (Inr raw2, w') \<and>
      payload = packed raw2 \<and>
      evs = [WalletAt addr (Inr contract),
             ContractStorage (address contract) (Inr st),
             SignerPublicKey (Inr key),
             RpcPackData
               \<lparr>data = encoded, type = typeWithoutAnnotations (parameterSchema contract)\<rparr>
               (Inr raw),
             RpcGetChainId (Inr chainId),
             RpcPackData (getUnpackedUniques addr chainId (toNumber c) h) (Inr raw2)])"
  unfolding createPermitPayload_def
  by (auto simp add: await_Inr sync_eq call_eq return_eq permitParamHash_Inr
      permit_counter_toNumber_Inr)

lemma forgeTxAndParams_Inr:
  "forgeTxAndParams lib tezos p w = (Inr (tp, permit), evs, w') \<longleftrightarrow>
   (\<exists>src key payload evs1 w1 w2 sg.
      wallet_pkh tezos w = (Inr src, w1) \<and>
      tp = formTransferParams src RELAYER_ADDRESS p \<and>
      createPermitPayload lib tezos (tokenAddress p) ''transfer'' tp w1
        = (Inr (key, payload, hash permit), evs1, w2) \<and>
      signer_sign tezos payload w2 = (Inr sg, w') \<and>
      pubkey permit = key \<and> signature permit = sig sg \<and>
      evs = WalletPkh (Inr src) # evs1 @ [SignerSign payload (Inr sg)])"
  unfolding forgeTxAndParams_def Let_def
  by (cases permit) (auto simp add: await_Inr sync_eq call_eq return_eq)

lemma forgeTxAndParams_returns:
  assumes "forgeTxAndParams lib tezos p w = (Inr (tp, permit), evs, w')"
  obtains src contract st args encoded raw buf chainId c raw2 sg where
    "tp = formTransferParams src RELAYER_ADDRESS p"
    and "spread tp = Inr args"
    and "Encode (parameterSchema contract) ''transfer'' args = Inr encoded"
    and "hex2buf lib (packed raw) = Inr buf"
    and "hash permit = blake2bHex lib buf None 32"
    and "permit_counter st = Some c"
    and "signature permit = sig sg"
    and "evs = [WalletPkh (Inr src),
                WalletAt (tokenAddress p) (Inr contract),
                ContractStorage (address contract) (Inr st),
                SignerPublicKey (Inr (pubkey permit)),
                RpcPackData
                  \<lparr>data = encoded, type = typeWithoutAnnotations (parameterSchema contract)\<rparr>
                  (Inr raw),
                RpcGetChainId (Inr chainId),
                RpcPackData
                  (getUnpackedUniques (tokenAddress p) chainId (toNumber c) (hash permit))
                  (Inr raw2),
                SignerSign (packed raw2) (Inr sg)]"
proof -
  from assms obtain src key payload evs1 w1 w2 sg where
    a: "tp = formTransferParams src RELAYER_ADDRESS p"
    "createPermitPayload lib tezos (tokenAddress p) ''transfer'' tp w1
        = (Inr (key, payload, hash permit), evs1, w2)"
    "pubkey permit = key" "signature permit = sig sg"
    "evs = WalletPkh (Inr src) # evs1 @ [SignerSign payload (Inr sg)]"
    unfolding forgeTxAndParams_Inr by blast
  from a(2) obtain contract st c args encoded raw buf chainId raw2 where
    b: "spread tp = Inr args"
    "Encode (parameterSchema contract) ''transfer'' args = Inr encoded"
    "hex2buf lib (packed raw) = Inr buf"
    "hash permit = blake2bHex lib buf None 32"
    "permit_counter st = Some c"
    "payload = packed raw2"
    "evs1 = [WalletAt (tokenAddress p) (Inr contract),
             ContractStorage (address contract) (Inr st),
             SignerPublicKey (Inr key),
             RpcPackData
               \<lparr>data = encoded, type = typeWithoutAnnotations (parameterSchema contract)\<rparr>
               (Inr raw),
             RpcGetChainId (Inr chainId),
             RpcPackData
               (getUnpackedUniques (tokenAddress p) chainId (toNumber c) (hash permit))
               (Inr raw2)]"
    unfolding createPermitPayload_Inr by blast
  show thesis
    by (rule that [OF a(1) b(1) b(2) b(3) b(4) b(5) a(4)]) (simp add: a(3) a(5) b(6) b(7))
qed

text \<open>Every run of \<open>estimate\<close>: it stops at the contract, or it submits one batch.\<close>

lemma estimate_runs:
  assumes "estimate tezos pp w = (r, evs, w')"
  obtains (no_contract) e where "r = Inl e"
      and "evs = [ContractAt \<lparr>pkh = ESTIMATOR_ADDRESS, pk = ESTIMATOR_PUBLIC_KEY\<rparr>
                    (contractAddress pp) (Inl e)]"
  | (no_call) contract e where "r = Inl e"
      and "evs = [ContractAt \<lparr>pkh = ESTIMATOR_ADDRESS, pk = ESTIMATOR_PUBLIC_KEY\<rparr>
                    (contractAddress pp) (Inr contract)]"
  | (batch) contract permit feeTransfer resp where
      "callMethod contract ''permit''
         [Str (pubkey pp), Str (signature pp), Str (hash pp)] = Inr permit"
      and "callMethodSpread contract (entrypoint (callParams pp)) (params (callParams pp))
         = Inr feeTransfer"
      and "evs = [ContractAt \<lparr>pkh = ESTIMATOR_ADDRESS, pk = ESTIMATOR_PUBLIC_KEY\<rparr>
                    (contractAddress pp) (Inr contract),
                  EstimateBatch \<lparr>pkh = ESTIMATOR_ADDRESS, pk = ESTIMATOR_PUBLIC_KEY\<rparr>
                    [\<lparr>kind = TRANSACTION, tParams = permit\<rparr>,
                     \<lparr>kind = TRANSACTION, tParams = feeTransfer\<rparr>] resp]"
      and "r = (case resp of Inl e \<Rightarrow> Inl e | Inr ests \<Rightarrow> Inr (sumFees (Num 0) ests))"
  using assms unfolding estimate_def estimateAsBatch_def Let_def
  by (auto simp: await_def call_def sync_def return_def split: prod.splits sum.splits)

subsection \<open>Runs against the test doubles\<close>

lemma double_createPermitPayload:
  "createPermitPayload double_lib double_tezos ''KT1Token'' ''transfer'' (Arr xs) c =
     (Inr (''edpkAlice'', ''0507'', ''0e5751c0''),
      [WalletAt ''KT1Token'' (Inr double_contract),
       ContractStorage ''KT1Token'' (Inr \<lparr>permit_counter = Some c\<rparr>),
       SignerPublicKey (Inr ''edpkAlice''),
       RpcPackData \<lparr>data = Prim ''transfer'' [Seq []], type = Prim ''list'' []\<rparr>
         (Inr \<lparr>packed = ''0502''\<rparr>),
       RpcGetChainId (Inr ''NetXdQprcVkpaWU''),
       RpcPackData
         (getUnpackedUniques ''KT1Token'' ''NetXdQprcVkpaWU'' (toNumber c) ''0e5751c0'')
         (Inr \<lparr>packed = ''0507''\<rparr>)],
      c)"
  by (simp add: createPermitPayload_def permitParamHash_def await_def call_def sync_def
      return_def double_tezos_def double_contract_def double_lib_def
      permit_counter_toNumber_def getUnpackedUniques_def)

lemma double_forgeTxAndParams:
  "forgeTxAndParams double_lib double_tezos double_params c =
     (Inr (formTransferParams ''tz1Alice'' RELAYER_ADDRESS double_params,
           \<lparr>pubkey = ''edpkAlice'', signature = ''edsig0507'', hash = ''0e5751c0''\<rparr>),
      [WalletPkh (Inr ''tz1Alice''),
       WalletAt ''KT1Token'' (Inr double_contract),
       ContractStorage ''KT1Token'' (Inr \<lparr>permit_counter = Some c\<rparr>),
       SignerPublicKey (Inr ''edpkAlice''),
       RpcPackData \<lparr>data = Prim ''transfer'' [Seq []], type = Prim ''list'' []\<rparr>
         (Inr \<lparr>packed = ''0502''\<rparr>),
       RpcGetChainId (Inr ''NetXdQprcVkpaWU''),
       RpcPackData
         (getUnpackedUniques ''KT1Token'' ''NetXdQprcVkpaWU'' (toNumber c) ''0e5751c0'')
         (Inr \<lparr>packed = ''0507''\<rparr>),
       SignerSign ''0507'' (Inr \<lparr>sig = ''edsig0507''\<rparr>)],
      c)"
proof -
  have tp: "formTransferParams ''tz1Alice'' RELAYER_ADDRESS double_params = Arr [Arr [Obj
      [(''from_'', Str ''tz1Alice''),
       (''txs'', Arr [Obj [(''to_'', Str ''tz1Bob''), (''token_id'', Number (Num 0)),
                           (''amount'', Number (Num 1000))],
                      Obj [(''to_'', Str RELAYER_ADDRESS), (''token_id'', Number (Num 0)),
                           (''amount'', Number (Num 25))]])]]]"
    by (simp add: formTransferParams_def double_params_def optNumber_def)
  have pkh: "wallet_pkh double_tezos = (\<lambda>w. (Inr ''tz1Alice'', w))"
    and sign: "signer_sign double_tezos = (\<lambda>bytes w. (Inr \<lparr>sig = ''edsig'' @ bytes\<rparr>, w))"
    and addr: "tokenAddress double_params = ''KT1Token''"
    by (simp_all add: double_tezos_def double_params_def)
  show ?thesis
    unfolding forgeTxAndParams_def Let_def
    by (simp add: await_def call_def return_def tp pkh sign addr double_createPermitPayload)
qed

lemma refusing_createPermitPayload:
  "createPermitPayload double_lib refusing_tezos addr ep ps =
   createPermitPayload double_lib double_tezos addr ep ps"
  by (simp add: createPermitPayload_def permitParamHash_def refusing_tezos_def)

lemma refusing_forgeTxAndParams:
  "forgeTxAndParams double_lib refusing_tezos double_params c =
     (Inl (Error ''refused''),
      [WalletPkh (Inr ''tz1Alice''),
       WalletAt ''KT1Token'' (Inr double_contract),
       ContractStorage ''KT1Token'' (Inr \<lparr>permit_counter = Some c\<rparr>),
       SignerPublicKey (Inr ''edpkAlice''),
       RpcPackData \<lparr>data = Prim ''transfer'' [Seq []], type = Prim ''list'' []\<rparr>
         (Inr \<lparr>packed = ''0502''\<rparr>),
       RpcGetChainId (Inr ''NetXdQprcVkpaWU''),
       RpcPackData
         (getUnpackedUniques ''KT1Token'' ''NetXdQprcVkpaWU'' (toNumber c) ''0e5751c0'')
         (Inr \<lparr>packed = ''0507''\<rparr>),
       SignerSign ''0507'' (Inl (Error ''refused''))],
      c)"
proof -
  have tp: "formTransferParams ''tz1Alice'' RELAYER_ADDRESS double_params = Arr [Arr [Obj
      [(''from_'', Str ''tz1Alice''),
       (''txs'', Arr [Obj [(''to_'', Str ''tz1Bob''), (''token_id'', Number (Num 0)),
                           (''amount'', Number (Num 1000))],
                      Obj [(''to_'', Str RELAYER_ADDRESS), (''token_id'', Number (Num 0)),
                           (''amount'', Number (Num 25))]])]]]"
    by (simp add: formTransferParams_def double_params_def optNumber_def)
  have pkh: "wallet_pkh refusing_tezos = (\<lambda>w. (Inr ''tz1Alice'', w))"
    and sign: "signer_sign refusing_tezos = (\<lambda>bytes w. (Inl (Error ''refused''), w))"
    and addr: "tokenAddress double_params = ''KT1Token''"
    by (simp_all add: refusing_tezos_def double_tezos_def double_params_def)
  show ?thesis
    unfolding forgeTxAndParams_def Let_def
    by (simp add: await_def call_def return_def tp pkh sign addr refusing_createPermitPayload
        double_createPermitPayload)
qed

lemma double_estimate:
  "estimate double_tezos double_permit c =
     (Inr (Num 350),
      [ContractAt \<lparr>pkh = ESTIMATOR_ADDRESS, pk = ESTIMATOR_PUBLIC_KEY\<rparr> ''KT1Token''
         (Inr double_contract),
       EstimateBatch \<lparr>pkh = ESTIMATOR_ADDRESS, pk = ESTIMATOR_PUBLIC_KEY\<rparr>
         [\<lparr>kind = TRANSACTION, tParams = \<lparr>tp_to = ''KT1Token'', tp_entrypoint = ''permit'',
                                           tp_value = Seq []\<rparr>\<rparr>,
          \<lparr>kind = TRANSACTION, tParams = \<lparr>tp_to = ''KT1Token'', tp_entrypoint = ''transfer'',
                                           tp_value = Seq []\<rparr>\<rparr>]
         (Inr [\<lparr>suggestedFeeMutez = Num 100\<rparr>, \<lparr>suggestedFeeMutez = Num 250\<rparr>])],
      c)"
  by (simp add: estimate_def estimateAsBatch_def Let_def callMethod_def callMethodSpread_def await_def call_def sync_def
      return_def double_tezos_def double_contract_def double_permit_def toNumber_exact)

lemma rejecting_estimate:
  "estimate rejecting_tezos double_permit c =
     (Inl (Error ''rejected''),
      [ContractAt \<lparr>pkh = ESTIMATOR_ADDRESS, pk = ESTIMATOR_PUBLIC_KEY\<rparr> ''KT1Token''
         (Inr double_contract),
       EstimateBatch \<lparr>pkh = ESTIMATOR_ADDRESS, pk = ESTIMATOR_PUBLIC_KEY\<rparr>
         [\<lparr>kind = TRANSACTION, tParams = \<lparr>tp_to = ''KT1Token'', tp_entrypoint = ''permit'',
                                           tp_value = Seq []\<rparr>\<rparr>,
          \<lparr>kind = TRANSACTION, tParams = \<lparr>tp_to = ''KT1Token'', tp_entrypoint = ''transfer'',
                                           tp_value = Seq []\<rparr>\<rparr>]
         (Inl (Error ''rejected''))],
      c)"
  by (simp add: estimate_def estimateAsBatch_def Let_def callMethod_def callMethodSpread_def await_def call_def sync_def
      return_def rejecting_tezos_def double_tezos_def double_contract_def double_permit_def)

lemma revealing_estimate:
  "estimate revealing_tezos double_permit c =
     (Inr (Num 1694),
      [ContractAt \<lparr>pkh = ESTIMATOR_ADDRESS, pk = ESTIMATOR_PUBLIC_KEY\<rparr> ''KT1Token''
         (Inr double_contract),
       EstimateBatch \<lparr>pkh = ESTIMATOR_ADDRESS, pk = ESTIMATOR_PUBLIC_KEY\<rparr>
         [\<lparr>kind = TRANSACTION, tParams = \<lparr>tp_to = ''KT1Token'', tp_entrypoint = ''permit'',
                                           tp_value = Seq []\<rparr>\<rparr>,
          \<lparr>kind = TRANSACTION, tParams = \<lparr>tp_to = ''KT1Token'', tp_entrypoint = ''transfer'',
                                           tp_value = Seq []\<rparr>\<rparr>]
         (Inr [\<lparr>suggestedFeeMutez = Num 374\<rparr>, \<lparr>suggestedFeeMutez = Num 610\<rparr>,
               \<lparr>suggestedFeeMutez = Num 710\<rparr>])],
      c)"
  by (simp add: estimate_def estimateAsBatch_def Let_def callMethod_def callMethodSpread_def await_def call_def sync_def
      return_def revealing_tezos_def double_tezos_def double_contract_def double_permit_def
      toNumber_exact)

lemma costly_estimate:
  "estimate costly_tezos double_permit c =
     (Inr (Num 9007199254740992),
      [ContractAt \<lparr>pkh = ESTIMATOR_ADDRESS, pk = ESTIMATOR_PUBLIC_KEY\<rparr> ''KT1Token''
         (Inr double_contract),
       EstimateBatch \<lparr>pkh = ESTIMATOR_ADDRESS, pk = ESTIMATOR_PUBLIC_KEY\<rparr>
         [\<lparr>kind = TRANSACTION, tParams = \<lparr>tp_to = ''KT1Token'', tp_entrypoint = ''permit'',
                                           tp_value = Seq []\<rparr>\<rparr>,
          \<lparr>kind = TRANSACTION, tParams = \<lparr>tp_to = ''KT1Token'', tp_entrypoint = ''transfer'',
                                           tp_value = Seq []\<rparr>\<rparr>]
         (Inr [\<lparr>suggestedFeeMutez = Num 9007199254740992\<rparr>, \<lparr>suggestedFeeMutez = Num 1\<rparr>])],
      c)"
  by (simp add: estimate_def estimateAsBatch_def Let_def callMethod_def callMethodSpread_def await_def call_def sync_def
      return_def costly_tezos_def double_tezos_def double_contract_def double_permit_def
      toNumber_exact toNumber_2_53_1)

subsection \<open>The permit hash\<close>

text \<open>
  C4: for every contract, entrypoint and argument list, the hash that \<open>permitParamHash\<close>
  returns is the blake2b digest, of length 32, of the bytes of the packed data, where
  the data packed by the RPC is the schema's encoding of the entrypoint's arguments
  and the type is the schema's type without annotations. A returning run makes that
  one \<open>packData\<close> call and no other.
\<close>

theorem permitParamHash_digest_of_packed_encoding:
  assumes "permitParamHash lib tezos contract ep ps w = (Inr h, evs, w')"
  shows "\<exists>args encoded raw buf.
           spread ps = Inr args \<and>
           Encode (parameterSchema contract) ep args = Inr encoded \<and>
           rpc_packData tezos
             \<lparr>data = encoded, type = typeWithoutAnnotations (parameterSchema contract)\<rparr> w
             = (Inr raw, w') \<and>
           evs = [RpcPackData
                    \<lparr>data = encoded, type = typeWithoutAnnotations (parameterSchema contract)\<rparr>
                    (Inr raw)] \<and>
           hex2buf lib (packed raw) = Inr buf \<and>
           h = blake2bHex lib buf None 32"
  using assms unfolding permitParamHash_Inr .

theorem permitParamHash_digest_witness:
  "permitParamHash double_lib double_tezos double_contract ''transfer'' (Arr [Arr []]) 5
     = (Inr ''0e5751c0'',
        [RpcPackData \<lparr>data = Prim ''transfer'' [Seq []], type = Prim ''list'' []\<rparr>
           (Inr \<lparr>packed = ''0502''\<rparr>)],
        5) \<and>
   (\<exists>buf. hex2buf double_lib ''0502'' = Inr buf \<and>
          ''0e5751c0'' = blake2bHex double_lib buf None 32)"
proof -
  have run: "permitParamHash double_lib double_tezos double_contract ''transfer'' (Arr [Arr []]) 5
     = (Inr ''0e5751c0'',
        [RpcPackData \<lparr>data = Prim ''transfer'' [Seq []], type = Prim ''list'' []\<rparr>
           (Inr \<lparr>packed = ''0502''\<rparr>)],
        5)"
    by (simp add: permitParamHash_def await_def call_def sync_def return_def
        double_tezos_def double_contract_def double_lib_def)
  show ?thesis
    using permitParamHash_digest_of_packed_encoding [OF run] run by auto
qed

text \<open>
  C1: for every input to \<open>forgeTxAndParams\<close>, the hash of the returned permit is computed
  over the very arguments that are returned with it: it is the digest of the packed
  bytes of the schema's encoding of the \<open>transfer\<close> entrypoint applied to the returned
  \<open>transferParams\<close>, the schema being that of the contract the run obtained.
\<close>

theorem forgeTxAndParams_hash_of_returned_params:
  assumes "forgeTxAndParams lib tezos p w = (Inr (transferParams, permit), evs, w')"
  shows "\<exists>contract args encoded raw buf.
           WalletAt (tokenAddress p) (Inr contract) \<in> set evs \<and>
           spread transferParams = Inr args \<and>
           Encode (parameterSchema contract) ''transfer'' args = Inr encoded \<and>
           RpcPackData
             \<lparr>data = encoded, type = typeWithoutAnnotations (parameterSchema contract)\<rparr>
             (Inr raw) \<in> set evs \<and>
           hex2buf lib (packed raw) = Inr buf \<and>
           hash permit = blake2bHex lib buf None 32"
proof -
  from assms obtain src contract st args encoded raw buf chainId c raw2 sg where
    "spread transferParams = Inr args"
    "Encode (parameterSchema contract) ''transfer'' args = Inr encoded"
    "hex2buf lib (packed raw) = Inr buf"
    "hash permit = blake2bHex lib buf None 32"
    "evs = [WalletPkh (Inr src),
            WalletAt (tokenAddress p) (Inr contract),
            ContractStorage (address contract) (Inr st),
            SignerPublicKey (Inr (pubkey permit)),
            RpcPackData
              \<lparr>data = encoded, type = typeWithoutAnnotations (parameterSchema contract)\<rparr>
              (Inr raw),
            RpcGetChainId (Inr chainId),
            RpcPackData
              (getUnpackedUniques (tokenAddress p) chainId (toNumber c) (hash permit))
              (Inr raw2),
            SignerSign (packed raw2) (Inr sg)]"
    by (rule forgeTxAndParams_returns)
  then show ?thesis by (intro exI [of _ contract] exI [of _ args] exI [of _ encoded]
        exI [of _ raw] exI [of _ buf]) simp
qed

theorem forgeTxAndParams_hash_witness:
  "\<exists>transferParams permit evs.
     forgeTxAndParams double_lib double_tezos double_params 5
       = (Inr (transferParams, permit), evs, 5) \<and>
     transferParams = formTransferParams ''tz1Alice'' RELAYER_ADDRESS double_params \<and>
     (\<exists>args encoded raw buf.
        spread transferParams = Inr args \<and>
        Encode (parameterSchema double_contract) ''transfer'' args = Inr encoded \<and>
        RpcPackData
          \<lparr>data = encoded, type = typeWithoutAnnotations (parameterSchema double_contract)\<rparr>
          (Inr raw) \<in> set evs \<and>
        hex2buf double_lib (packed raw) = Inr buf \<and>
        hash permit = blake2bHex double_lib buf None 32)"
proof -
  note run = double_forgeTxAndParams [of 5]
  from forgeTxAndParams_hash_of_returned_params [OF run]
  obtain contract args encoded raw buf where
    c: "WalletAt (tokenAddress double_params) (Inr contract) \<in> set
          [WalletPkh (Inr ''tz1Alice''),
           WalletAt ''KT1Token'' (Inr double_contract),
           ContractStorage ''KT1Token'' (Inr \<lparr>permit_counter = Some 5\<rparr>),
           SignerPublicKey (Inr ''edpkAlice''),
           RpcPackData \<lparr>data = Prim ''transfer'' [Seq []], type = Prim ''list'' []\<rparr>
             (Inr \<lparr>packed = ''0502''\<rparr>),
           RpcGetChainId (Inr ''NetXdQprcVkpaWU''),
           RpcPackData
             (getUnpackedUniques ''KT1Token'' ''NetXdQprcVkpaWU'' (toNumber 5) ''0e5751c0'')
             (Inr \<lparr>packed = ''0507''\<rparr>),
           SignerSign ''0507'' (Inr \<lparr>sig = ''edsig0507''\<rparr>)]"
    and rest: "spread (formTransferParams ''tz1Alice'' RELAYER_ADDRESS double_params) = Inr args"
      "Encode (parameterSchema contract) ''transfer'' args = Inr encoded"
      "RpcPackData
         \<lparr>data = encoded, type = typeWithoutAnnotations (parameterSchema contract)\<rparr>
         (Inr raw) \<in> set
          [WalletPkh (Inr ''tz1Alice''),
           WalletAt ''KT1Token'' (Inr double_contract),
           ContractStorage ''KT1Token'' (Inr \<lparr>permit_counter = Some 5\<rparr>),
           SignerPublicKey (Inr ''edpkAlice''),
           RpcPackData \<lparr>data = Prim ''transfer'' [Seq []], type = Prim ''list'' []\<rparr>
             (Inr \<lparr>packed = ''0502''\<rparr>),
           RpcGetChainId (Inr ''NetXdQprcVkpaWU''),
           RpcPackData
             (getUnpackedUniques ''KT1Token'' ''NetXdQprcVkpaWU'' (toNumber 5) ''0e5751c0'')
             (Inr \<lparr>packed = ''0507''\<rparr>),
           SignerSign ''0507'' (Inr \<lparr>sig = ''edsig0507''\<rparr>)]"
      "hex2buf double_lib (packed raw) = Inr buf"
      "hash \<lparr>pubkey = ''edpkAlice'', signature = ''edsig0507'', hash = ''0e5751c0''\<rparr>
         = blake2bHex double_lib buf None 32"
    by blast
  from c have "contract = double_contract" by simp
  with rest run show ?thesis by blast
qed

subsection \<open>The transfer batch\<close>

text \<open>
  C3: for every destination, optional token id, amount and relayer fee, and every source
  address, the batch is an array nested one level, holding one group \<open>{from_, txs}\<close>
  with exactly two legs; both legs carry the same token id (\<open>undefined\<close> in both when
  there is none), the first sends the amount to the destination, the second sends the
  relayer fee to the fixed relayer address. The batch \<open>forgeTxAndParams\<close> returns is this
  one, its source being the address \<open>wallet.pkh\<close> gave.
\<close>

theorem formTransferParams_two_legs:
  "formTransferParams src RELAYER_ADDRESS p =
     Arr [Arr [Obj
       [(''from_'', Str src),
        (''txs'', Arr
           [Obj [(''to_'', Str (to p)), (''token_id'', optNumber (tokenId p)),
                 (''amount'', Number (amount p))],
            Obj [(''to_'', Str ''tz1VSUr8wwNhLAzempoch5d6hLRiTh8Cjcjb''),
                 (''token_id'', optNumber (tokenId p)),
                 (''amount'', Number (relayerFee p))]])]]] \<and>
   (forgeTxAndParams lib tezos p w = (Inr (transferParams, permit), evs, w') \<longrightarrow>
      (\<exists>from'. WalletPkh (Inr from') \<in> set evs \<and>
               transferParams = formTransferParams from' RELAYER_ADDRESS p))"
proof (intro conjI impI)
  show "formTransferParams src RELAYER_ADDRESS p =
     Arr [Arr [Obj
       [(''from_'', Str src),
        (''txs'', Arr
           [Obj [(''to_'', Str (to p)), (''token_id'', optNumber (tokenId p)),
                 (''amount'', Number (amount p))],
            Obj [(''to_'', Str ''tz1VSUr8wwNhLAzempoch5d6hLRiTh8Cjcjb''),
                 (''token_id'', optNumber (tokenId p)),
                 (''amount'', Number (relayerFee p))]])]]]"
    by (simp add: formTransferParams_def RELAYER_ADDRESS_def)
next
  assume "forgeTxAndParams lib tezos p w = (Inr (transferParams, permit), evs, w')"
  then obtain from' evs1 where "transferParams = formTransferParams from' RELAYER_ADDRESS p"
    and "evs = WalletPkh (Inr from') # evs1"
    unfolding forgeTxAndParams_Inr by auto
  then show "\<exists>from'. WalletPkh (Inr from') \<in> set evs \<and>
      transferParams = formTransferParams from' RELAYER_ADDRESS p"
    by auto
qed

theorem formTransferParams_two_legs_witness:
  "forgeTxAndParams double_lib double_tezos double_params 5
     = (Inr (Arr [Arr [Obj
          [(''from_'', Str ''tz1Alice''),
           (''txs'', Arr
              [Obj [(''to_'', Str ''tz1Bob''), (''token_id'', Number (Num 0)),
                    (''amount'', Number (Num 1000))],
               Obj [(''to_'', Str ''tz1VSUr8wwNhLAzempoch5d6hLRiTh8Cjcjb''),
                    (''token_id'', Number (Num 0)),
                    (''amount'', Number (Num 25))]])]]],
             \<lparr>pubkey = ''edpkAlice'', signature = ''edsig0507'', hash = ''0e5751c0''\<rparr>),
        [WalletPkh (Inr ''tz1Alice''),
         WalletAt ''KT1Token'' (Inr double_contract),
         ContractStorage ''KT1Token'' (Inr \<lparr>permit_counter = Some 5\<rparr>),
         SignerPublicKey (Inr ''edpkAlice''),
         RpcPackData \<lparr>data = Prim ''transfer'' [Seq []], type = Prim ''list'' []\<rparr>
           (Inr \<lparr>packed = ''0502''\<rparr>),
         RpcGetChainId (Inr ''NetXdQprcVkpaWU''),
         RpcPackData
           (getUnpackedUniques ''KT1Token'' ''NetXdQprcVkpaWU'' (toNumber 5) ''0e5751c0'')
           (Inr \<lparr>packed = ''0507''\<rparr>),
         SignerSign ''0507'' (Inr \<lparr>sig = ''edsig0507''\<rparr>)],
        5)"
  using formTransferParams_two_legs [of "''tz1Alice''" double_params double_lib double_tezos 5]
    double_forgeTxAndParams [of 5]
  by (simp add: double_params_def optNumber_def)

subsection \<open>The packed pair\<close>




subsection \<open>The permit counter\<close>

text \<open>
  C5, as the code has it: \<open>createPermitPayload\<close> has no state of its own; each returning
  run reads the storage once, before it packs, and the counter in the packed pair is
  made from the \<open>permit_counter\<close> of that read (a storage returning 5 gives a pair
  holding 5). The counter passes through \<open>toNumber()\<close>, a double: for every counter
  up to \<open>2 ^ 53\<close> the pair holds exactly the digits of the value read.
\<close>

theorem createPermitPayload_counter_of_this_read:
  assumes "createPermitPayload lib tezos addr ep ps w = (Inr (key, payload, h), evs, w')"
  shows "\<exists>contract st c chainId reqHash raw raw2.
           evs = [WalletAt addr (Inr contract),
                  ContractStorage (address contract) (Inr st),
                  SignerPublicKey (Inr key),
                  RpcPackData reqHash (Inr raw),
                  RpcGetChainId (Inr chainId),
                  RpcPackData (getUnpackedUniques addr chainId (toNumber c) h) (Inr raw2)] \<and>
           permit_counter st = Some c \<and>
           payload = packed raw2 \<and>
           (c \<le> 2 ^ 53 \<longrightarrow>
              data (getUnpackedUniques addr chainId (toNumber c) h) =
                Prim ''Pair''
                  [Prim ''Pair'' [MString addr, MString chainId],
                   Prim ''Pair'' [MInt (dec c), MBytes h]])"
proof -
  from assms obtain contract st c encoded raw chainId raw2 where
    a: "permit_counter st = Some c" "payload = packed raw2"
    "evs = [WalletAt addr (Inr contract),
            ContractStorage (address contract) (Inr st),
            SignerPublicKey (Inr key),
            RpcPackData
              \<lparr>data = encoded, type = typeWithoutAnnotations (parameterSchema contract)\<rparr>
              (Inr raw),
            RpcGetChainId (Inr chainId),
            RpcPackData (getUnpackedUniques addr chainId (toNumber c) h) (Inr raw2)]"
    unfolding createPermitPayload_Inr by blast
  have "data (getUnpackedUniques addr chainId (toNumber c) h) =
          Prim ''Pair''
            [Prim ''Pair'' [MString addr, MString chainId],
             Prim ''Pair'' [MInt (dec c), MBytes h]]" if "c \<le> 2 ^ 53"
    using number_toString_toNumber_le [OF that] by (simp add: getUnpackedUniques_def)
  with a show ?thesis by blast
qed

theorem createPermitPayload_counter_witness:
  "createPermitPayload double_lib double_tezos ''KT1Token'' ''transfer'' (Arr []) 5 =
     (Inr (''edpkAlice'', ''0507'', ''0e5751c0''),
      [WalletAt ''KT1Token'' (Inr double_contract),
       ContractStorage ''KT1Token'' (Inr \<lparr>permit_counter = Some 5\<rparr>),
       SignerPublicKey (Inr ''edpkAlice''),
       RpcPackData \<lparr>data = Prim ''transfer'' [Seq []], type = Prim ''list'' []\<rparr>
         (Inr \<lparr>packed = ''0502''\<rparr>),
       RpcGetChainId (Inr ''NetXdQprcVkpaWU''),
       RpcPackData
         (getUnpackedUniques ''KT1Token'' ''NetXdQprcVkpaWU'' (toNumber 5) ''0e5751c0'')
         (Inr \<lparr>packed = ''0507''\<rparr>)],
      5) \<and>
   (5::nat) \<le> 2 ^ 53 \<and>
   data (getUnpackedUniques ''KT1Token'' ''NetXdQprcVkpaWU'' (toNumber 5) ''0e5751c0'') =
     Prim ''Pair''
       [Prim ''Pair'' [MString ''KT1Token'', MString ''NetXdQprcVkpaWU''],
        Prim ''Pair'' [MInt ''5'', MBytes ''0e5751c0'']]"
proof -
  note run = double_createPermitPayload [of "[]" 5]
  from createPermitPayload_counter_of_this_read [OF run]
  have "data (getUnpackedUniques ''KT1Token'' ''NetXdQprcVkpaWU'' (toNumber 5) ''0e5751c0'') =
     Prim ''Pair''
       [Prim ''Pair'' [MString ''KT1Token'', MString ''NetXdQprcVkpaWU''],
        Prim ''Pair'' [MInt (dec 5), MBytes ''0e5751c0'']]"
    by auto
  then show ?thesis using run by (simp add: dec_5)
qed

text \<open>
  C5 as the spec states it, for every value of the counter, fails at \<open>2 ^ 53 + 1\<close>, the
  first value above the bound: the storage returns 9007199254740993 and the pair that
  is packed holds 9007199254740992.
\<close>

theorem createPermitPayload_counter_counterexample:
  "createPermitPayload double_lib double_tezos ''KT1Token'' ''transfer'' (Arr [])
       9007199254740993 =
     (Inr (''edpkAlice'', ''0507'', ''0e5751c0''),
      [WalletAt ''KT1Token'' (Inr double_contract),
       ContractStorage ''KT1Token'' (Inr \<lparr>permit_counter = Some 9007199254740993\<rparr>),
       SignerPublicKey (Inr ''edpkAlice''),
       RpcPackData \<lparr>data = Prim ''transfer'' [Seq []], type = Prim ''list'' []\<rparr>
         (Inr \<lparr>packed = ''0502''\<rparr>),
       RpcGetChainId (Inr ''NetXdQprcVkpaWU''),
       RpcPackData
         \<lparr>data = Prim ''Pair''
            [Prim ''Pair'' [MString ''KT1Token'', MString ''NetXdQprcVkpaWU''],
             Prim ''Pair'' [MInt ''9007199254740992'', MBytes ''0e5751c0'']],
          type = Prim ''pair''
            [Prim ''pair'' [Prim ''address'' [], Prim ''chain_id'' []],
             Prim ''pair'' [Prim ''nat'' [], Prim ''bytes'' []]]\<rparr>
         (Inr \<lparr>packed = ''0507''\<rparr>)],
      9007199254740993)"
  unfolding double_createPermitPayload getUnpackedUniques_def toNumber_2_53_1
    number_toString_2_53 ..

subsection \<open>The order of the calls\<close>

text \<open>
  C9: within one run of \<open>forgeTxAndParams\<close> the calls are made one after the other in
  one fixed order, each at most once, and a call is made only when every call before
  it has returned. A returning run made all eight: the storage read and the chain-id
  read come before the packing of the permit pair, whose request holds their
  responses; the signature is asked for the bytes that packing returned; the
  signature returned is the signer's response.
\<close>

theorem forgeTxAndParams_sequential:
  assumes "forgeTxAndParams lib tezos p w = (r, evs, w')"
  shows "map step_of evs =
           take (length evs)
             [GetPkh, GetContract, ReadStorage, GetPublicKey, PackData, GetChainId,
              PackData, Sign] \<and>
         list_all (\<lambda>ev. thrown ev = None) (butlast evs) \<and>
         (\<forall>transferParams permit. r = Inr (transferParams, permit) \<longrightarrow>
            (\<exists>src contract st c reqHash raw chainId raw2 sg.
               evs = [WalletPkh (Inr src),
                      WalletAt (tokenAddress p) (Inr contract),
                      ContractStorage (address contract) (Inr st),
                      SignerPublicKey (Inr (pubkey permit)),
                      RpcPackData reqHash (Inr raw),
                      RpcGetChainId (Inr chainId),
                      RpcPackData
                        (getUnpackedUniques (tokenAddress p) chainId (toNumber c)
                           (hash permit))
                        (Inr raw2),
                      SignerSign (packed raw2) (Inr sg)] \<and>
               permit_counter st = Some c \<and>
               signature permit = sig sg))"
proof (intro conjI allI impI)
  note f = followsD [OF follows_forgeTxAndParams assms]
  show "map step_of evs =
           take (length evs)
             [GetPkh, GetContract, ReadStorage, GetPublicKey, PackData, GetChainId,
              PackData, Sign]"
    by (rule f(2))
  show "list_all (\<lambda>ev. thrown ev = None) (butlast evs)"
    using f(1) by (simp add: fail_stop_def)
next
  fix transferParams permit
  assume "r = Inr (transferParams, permit)"
  with assms have "forgeTxAndParams lib tezos p w = (Inr (transferParams, permit), evs, w')"
    by simp
  then obtain src contract st encoded raw chainId c raw2 sg where
    "permit_counter st = Some c"
    "signature permit = sig sg"
    "evs = [WalletPkh (Inr src),
            WalletAt (tokenAddress p) (Inr contract),
            ContractStorage (address contract) (Inr st),
            SignerPublicKey (Inr (pubkey permit)),
            RpcPackData
              \<lparr>data = encoded, type = typeWithoutAnnotations (parameterSchema contract)\<rparr>
              (Inr raw),
            RpcGetChainId (Inr chainId),
            RpcPackData
              (getUnpackedUniques (tokenAddress p) chainId (toNumber c) (hash permit))
              (Inr raw2),
            SignerSign (packed raw2) (Inr sg)]"
    by (rule forgeTxAndParams_returns)
  then show "\<exists>src contract st c reqHash raw chainId raw2 sg.
               evs = [WalletPkh (Inr src),
                      WalletAt (tokenAddress p) (Inr contract),
                      ContractStorage (address contract) (Inr st),
                      SignerPublicKey (Inr (pubkey permit)),
                      RpcPackData reqHash (Inr raw),
                      RpcGetChainId (Inr chainId),
                      RpcPackData
                        (getUnpackedUniques (tokenAddress p) chainId (toNumber c)
                           (hash permit))
                        (Inr raw2),
                      SignerSign (packed raw2) (Inr sg)] \<and>
               permit_counter st = Some c \<and>
               signature permit = sig sg"
    by blast
qed

theorem forgeTxAndParams_sequential_witness:
  "\<exists>transferParams permit evs.
     forgeTxAndParams double_lib double_tezos double_params 5
       = (Inr (transferParams, permit), evs, 5) \<and>
     map step_of evs =
       [GetPkh, GetContract, ReadStorage, GetPublicKey, PackData, GetChainId, PackData, Sign] \<and>
     list_all (\<lambda>ev. thrown ev = None) evs"
proof -
  note run = double_forgeTxAndParams [of 5]
  from forgeTxAndParams_sequential [OF run]
  show ?thesis using run by (simp add: err_def)
qed

subsection \<open>A signer that throws\<close>

text \<open>
  C7: if the signer throws, on \<open>publicKey()\<close> or on \<open>sign(payload)\<close>, \<open>forgeTxAndParams\<close>
  throws that same error, and the throwing call is the last call of the run: every
  call before it returned, and no call, of the RPC or any other, is made after it.
\<close>

theorem forgeTxAndParams_signer_throws:
  assumes "forgeTxAndParams lib tezos p w = (r, evs, w')"
    and "ev \<in> set evs"
    and "ev = SignerPublicKey (Inl e) \<or> ev = SignerSign payload (Inl e)"
  shows "r = Inl e \<and> last evs = ev \<and> list_all (\<lambda>x. thrown x = None) (butlast evs)"
proof -
  have fs: "fail_stop r evs"
    by (rule followsD(1) [OF follows_forgeTxAndParams assms(1)])
  have "thrown ev = Some e" using assms(3) by (auto simp: err_def)
  with fs assms(2) have "r = Inl e \<and> last evs = ev" by (rule fail_stop_thrown)
  then show ?thesis using fs by (simp add: fail_stop_def)
qed

theorem forgeTxAndParams_signer_throws_witness:
  "\<exists>evs. forgeTxAndParams double_lib refusing_tezos double_params 5
            = (Inl (Error ''refused''), evs, 5) \<and>
         SignerSign ''0507'' (Inl (Error ''refused'')) \<in> set evs \<and>
         last evs = SignerSign ''0507'' (Inl (Error ''refused'')) \<and>
         list_all (\<lambda>x. thrown x = None) (butlast evs)"
proof -
  note run = refusing_forgeTxAndParams [of 5]
  have "SignerSign ''0507'' (Inl (Error ''refused'')) \<in> set
      [WalletPkh (Inr ''tz1Alice''),
       WalletAt ''KT1Token'' (Inr double_contract),
       ContractStorage ''KT1Token'' (Inr \<lparr>permit_counter = Some (5::nat)\<rparr>),
       SignerPublicKey (Inr ''edpkAlice''),
       RpcPackData \<lparr>data = Prim ''transfer'' [Seq []], type = Prim ''list'' []\<rparr>
         (Inr \<lparr>packed = ''0502''\<rparr>),
       RpcGetChainId (Inr ''NetXdQprcVkpaWU''),
       RpcPackData
         (getUnpackedUniques ''KT1Token'' ''NetXdQprcVkpaWU'' (toNumber 5) ''0e5751c0'')
         (Inr \<lparr>packed = ''0507''\<rparr>),
       SignerSign ''0507'' (Inl (Error ''refused''))]"
    by simp
  from forgeTxAndParams_signer_throws [OF run this, of "Error ''refused''" "''0507''"]
  show ?thesis using run by (auto simp: err_def)
qed

subsection \<open>Fee estimation\<close>

text \<open>
  C6, as the code has it: for every permit payload and call parameters, a run of
  \<open>estimate\<close> that reaches the simulation submits one batch of exactly two transactions,
  under the estimator's identity: the contract's \<open>permit\<close> entrypoint applied to the
  public key, the signature and the hash, then the called entrypoint applied to the
  original arguments. What it returns is the suggested fees of all the estimates the
  batch gave back, as many as they are, added up from 0 in their order; whenever the
  integer sum of those fees is at most \<open>2 ^ 53\<close>, the result is exactly that integer
  sum (100 and 250 give 350).
\<close>

theorem estimate_batch_of_two_and_sum:
  assumes "estimate tezos pp w = (r, evs, w')"
    and "EstimateBatch s ops resp \<in> set evs"
  shows "\<exists>contract permit args feeTransfer.
           evs = [ContractAt s (contractAddress pp) (Inr contract), EstimateBatch s ops resp] \<and>
           s = \<lparr>pkh = ESTIMATOR_ADDRESS, pk = ESTIMATOR_PUBLIC_KEY\<rparr> \<and>
           callMethod contract ''permit''
             [Str (pubkey pp), Str (signature pp), Str (hash pp)] = Inr permit \<and>
           spread (params (callParams pp)) = Inr args \<and>
           callMethod contract (entrypoint (callParams pp)) args = Inr feeTransfer \<and>
           ops = [\<lparr>kind = TRANSACTION, tParams = permit\<rparr>,
                  \<lparr>kind = TRANSACTION, tParams = feeTransfer\<rparr>] \<and>
           (\<forall>ests. resp = Inr ests \<longrightarrow> r = Inr (sumFees (Num 0) ests)) \<and>
           (\<forall>ests fees. resp = Inr ests \<longrightarrow> map suggestedFeeMutez ests = map Num fees \<longrightarrow>
                  sum_list fees \<le> 2 ^ 53 \<longrightarrow> r = Inr (Num (sum_list fees)))"
  using assms(1)
proof (cases rule: estimate_runs)
  case (no_contract e)
  then show ?thesis using assms(2) by simp
next
  case (no_call contract e)
  then show ?thesis using assms(2) by simp
next
  case (batch contract permit feeTransfer resp')
  from batch(3) assms(2) have eq: "s = \<lparr>pkh = ESTIMATOR_ADDRESS, pk = ESTIMATOR_PUBLIC_KEY\<rparr>"
    "ops = [\<lparr>kind = TRANSACTION, tParams = permit\<rparr>,
            \<lparr>kind = TRANSACTION, tParams = feeTransfer\<rparr>]"
    "resp = resp'"
    by auto
  have sum: "r = Inr (sumFees (Num 0) ests)" if "resp = Inr ests" for ests
    using batch(4) that eq(3) by simp
  have "r = Inr (Num (sum_list fees))"
    if "resp = Inr ests" and "map suggestedFeeMutez ests = map Num fees"
      and "sum_list fees \<le> 2 ^ 53" for ests fees
    using sum [OF that(1)] sumFees_exact [of ests fees 0] that(2,3) by simp
  moreover obtain args where "spread (params (callParams pp)) = Inr args"
    and "callMethod contract (entrypoint (callParams pp)) args = Inr feeTransfer"
    using batch(2) by (auto simp: callMethodSpread_def split: sum.splits)
  ultimately show ?thesis using sum batch(1,3) eq by blast
qed

theorem estimate_batch_of_two_and_sum_witness:
  "estimate double_tezos double_permit 5 =
     (Inr (Num (100 + 250)),
      [ContractAt \<lparr>pkh = ESTIMATOR_ADDRESS, pk = ESTIMATOR_PUBLIC_KEY\<rparr> ''KT1Token''
         (Inr double_contract),
       EstimateBatch \<lparr>pkh = ESTIMATOR_ADDRESS, pk = ESTIMATOR_PUBLIC_KEY\<rparr>
         [\<lparr>kind = TRANSACTION, tParams = \<lparr>tp_to = ''KT1Token'', tp_entrypoint = ''permit'',
                                           tp_value = Seq []\<rparr>\<rparr>,
          \<lparr>kind = TRANSACTION, tParams = \<lparr>tp_to = ''KT1Token'', tp_entrypoint = ''transfer'',
                                           tp_value = Seq []\<rparr>\<rparr>]
         (Inr [\<lparr>suggestedFeeMutez = Num 100\<rparr>, \<lparr>suggestedFeeMutez = Num 250\<rparr>])],
      5) \<and>
   map suggestedFeeMutez [\<lparr>suggestedFeeMutez = Num 100\<rparr>, \<lparr>suggestedFeeMutez = Num 250\<rparr>]
     = map Num [100, 250] \<and>
   sum_list [100, 250 :: nat] \<le> 2 ^ 53 \<and>
   callMethod double_contract ''permit'' [Str ''edpkAlice'', Str ''edsig0507'', Str ''0e5751c0'']
     = Inr \<lparr>tp_to = ''KT1Token'', tp_entrypoint = ''permit'', tp_value = Seq []\<rparr>"
proof -
  note run = double_estimate [of 5]
  have "EstimateBatch \<lparr>pkh = ESTIMATOR_ADDRESS, pk = ESTIMATOR_PUBLIC_KEY\<rparr>
         [\<lparr>kind = TRANSACTION, tParams = \<lparr>tp_to = ''KT1Token'', tp_entrypoint = ''permit'',
                                           tp_value = Seq []\<rparr>\<rparr>,
          \<lparr>kind = TRANSACTION, tParams = \<lparr>tp_to = ''KT1Token'', tp_entrypoint = ''transfer'',
                                           tp_value = Seq []\<rparr>\<rparr>]
         (Inr [\<lparr>suggestedFeeMutez = Num 100\<rparr>, \<lparr>suggestedFeeMutez = Num 250\<rparr>])
      \<in> set
      [ContractAt \<lparr>pkh = ESTIMATOR_ADDRESS, pk = ESTIMATOR_PUBLIC_KEY\<rparr> ''KT1Token''
         (Inr double_contract),
       EstimateBatch \<lparr>pkh = ESTIMATOR_ADDRESS, pk = ESTIMATOR_PUBLIC_KEY\<rparr>
         [\<lparr>kind = TRANSACTION, tParams = \<lparr>tp_to = ''KT1Token'', tp_entrypoint = ''permit'',
                                           tp_value = Seq []\<rparr>\<rparr>,
          \<lparr>kind = TRANSACTION, tParams = \<lparr>tp_to = ''KT1Token'', tp_entrypoint = ''transfer'',
                                           tp_value = Seq []\<rparr>\<rparr>]
         (Inr [\<lparr>suggestedFeeMutez = Num 100\<rparr>, \<lparr>suggestedFeeMutez = Num 250\<rparr>])]"
    by simp
  from estimate_batch_of_two_and_sum [OF run this]
  show ?thesis using run
    by (auto simp: double_permit_def callMethod_def double_contract_def)
qed

text \<open>
  C6 as the spec states it, the sum of the two operations' fees, fails when the node
  answers the batch of two with three estimates (374 for a reveal, 610 and 710): the
  result is 1694 and not 1320. An integer sum it is not either from \<open>2 ^ 53 + 1\<close> on:
  the fees 9007199254740992 and 1 give 9007199254740992.
\<close>

theorem estimate_batch_of_two_and_sum_counterexample:
  "estimate revealing_tezos double_permit 5 =
     (Inr (Num 1694),
      [ContractAt \<lparr>pkh = ESTIMATOR_ADDRESS, pk = ESTIMATOR_PUBLIC_KEY\<rparr> ''KT1Token''
         (Inr double_contract),
       EstimateBatch \<lparr>pkh = ESTIMATOR_ADDRESS, pk = ESTIMATOR_PUBLIC_KEY\<rparr>
         [\<lparr>kind = TRANSACTION, tParams = \<lparr>tp_to = ''KT1Token'', tp_entrypoint = ''permit'',
                                           tp_value = Seq []\<rparr>\<rparr>,
          \<lparr>kind = TRANSACTION, tParams = \<lparr>tp_to = ''KT1Token'', tp_entrypoint = ''transfer'',
                                           tp_value = Seq []\<rparr>\<rparr>]
         (Inr [\<lparr>suggestedFeeMutez = Num 374\<rparr>, \<lparr>suggestedFeeMutez = Num 610\<rparr>,
               \<lparr>suggestedFeeMutez = Num 710\<rparr>])],
      5) \<and>
   estimate costly_tezos double_permit 5 =
     (Inr (Num 9007199254740992),
      [ContractAt \<lparr>pkh = ESTIMATOR_ADDRESS, pk = ESTIMATOR_PUBLIC_KEY\<rparr> ''KT1Token''
         (Inr double_contract),
       EstimateBatch \<lparr>pkh = ESTIMATOR_ADDRESS, pk = ESTIMATOR_PUBLIC_KEY\<rparr>
         [\<lparr>kind = TRANSACTION, tParams = \<lparr>tp_to = ''KT1Token'', tp_entrypoint = ''permit'',
                                           tp_value = Seq []\<rparr>\<rparr>,
          \<lparr>kind = TRANSACTION, tParams = \<lparr>tp_to = ''KT1Token'', tp_entrypoint = ''transfer'',
                                           tp_value = Seq []\<rparr>\<rparr>]
         (Inr [\<lparr>suggestedFeeMutez = Num 9007199254740992\<rparr>, \<lparr>suggestedFeeMutez = Num 1\<rparr>])],
      5)"
  by (rule conjI [OF revealing_estimate costly_estimate])

text \<open>
  C8: if the node rejects the batch simulation, \<open>estimate\<close> throws that one error and
  returns no number; the rejected call is the last of the run. A total is returned
  only when the batch estimation as a whole returned, and it is then the sum over the
  estimates it returned.
\<close>

theorem estimate_no_partial_sum:
  assumes "estimate tezos pp w = (r, evs, w')"
  shows "(\<forall>s ops e. EstimateBatch s ops (Inl e) \<in> set evs \<longrightarrow>
            r = Inl e \<and> last evs = EstimateBatch s ops (Inl e)) \<and>
         (\<forall>total. r = Inr total \<longrightarrow>
            (\<exists>s ops ests. last evs = EstimateBatch s ops (Inr ests) \<and>
                          total = sumFees (Num 0) ests))"
  using assms
proof (cases rule: estimate_runs)
  case (no_contract e)
  then show ?thesis by simp
next
  case (no_call contract e)
  then show ?thesis by simp
next
  case (batch contract permit feeTransfer resp)
  then show ?thesis by (cases resp) auto
qed

theorem estimate_no_partial_sum_witness:
  "estimate rejecting_tezos double_permit 5 =
     (Inl (Error ''rejected''),
      [ContractAt \<lparr>pkh = ESTIMATOR_ADDRESS, pk = ESTIMATOR_PUBLIC_KEY\<rparr> ''KT1Token''
         (Inr double_contract),
       EstimateBatch \<lparr>pkh = ESTIMATOR_ADDRESS, pk = ESTIMATOR_PUBLIC_KEY\<rparr>
         [\<lparr>kind = TRANSACTION, tParams = \<lparr>tp_to = ''KT1Token'', tp_entrypoint = ''permit'',
                                           tp_value = Seq []\<rparr>\<rparr>,
          \<lparr>kind = TRANSACTION, tParams = \<lparr>tp_to = ''KT1Token'', tp_entrypoint = ''transfer'',
                                           tp_value = Seq []\<rparr>\<rparr>]
         (Inl (Error ''rejected''))],
      5) \<and>
   (\<exists>total s ops ests evs.
      estimate double_tezos double_permit 5 = (Inr total, evs, 5) \<and>
      last evs = EstimateBatch s ops (Inr ests) \<and> total = sumFees (Num 0) ests)"
proof -
  note rejected = rejecting_estimate [of 5]
  note accepted = double_estimate [of 5]
  from estimate_no_partial_sum [OF accepted]
  have "\<exists>s ops ests. last
      [ContractAt \<lparr>pkh = ESTIMATOR_ADDRESS, pk = ESTIMATOR_PUBLIC_KEY\<rparr> ''KT1Token''
         (Inr double_contract),
       EstimateBatch \<lparr>pkh = ESTIMATOR_ADDRESS, pk = ESTIMATOR_PUBLIC_KEY\<rparr>
         [\<lparr>kind = TRANSACTION, tParams = \<lparr>tp_to = ''KT1Token'', tp_entrypoint = ''permit'',
                                           tp_value = Seq []\<rparr>\<rparr>,
          \<lparr>kind = TRANSACTION, tParams = \<lparr>tp_to = ''KT1Token'', tp_entrypoint = ''transfer'',
                                           tp_value = Seq []\<rparr>\<rparr>]
         (Inr [\<lparr>suggestedFeeMutez = Num 100\<rparr>, \<lparr>suggestedFeeMutez = Num 250\<rparr>])]
       = EstimateBatch s ops (Inr ests) \<and> Num 350 = sumFees (Num 0) ests"
    by blast
  with accepted rejected show ?thesis by blast
qed

subsection \<open>The relayer and the estimator\<close>

text \<open>
  C10: the relayer address that the fee leg credits and the estimator address under
  which the fees are simulated are one and the same account,
  \<open>tz1VSUr8wwNhLAzempoch5d6hLRiTh8Cjcjb\<close>: the recipient of the second leg of every batch
  \<open>forgeTxAndParams\<close> returns is the address of the signer under which \<open>estimate\<close>
  submits its batch.
\<close>

theorem relayer_is_estimator:
  assumes "forgeTxAndParams lib tezos p w = (Inr (transferParams, permit), evs, w')"
    and "estimate tezos' pp v = (r, evs', v')"
    and "EstimateBatch s ops resp \<in> set evs'"
  shows "RELAYER_ADDRESS = ESTIMATOR_ADDRESS \<and>
         pkh s = ''tz1VSUr8wwNhLAzempoch5d6hLRiTh8Cjcjb'' \<and>
         (\<exists>src intendedTx.
            transferParams = Arr [Arr [Obj
              [(''from_'', Str src),
               (''txs'', Arr
                  [intendedTx,
                   Obj [(''to_'', Str (pkh s)), (''token_id'', optNumber (tokenId p)),
                        (''amount'', Number (relayerFee p))]])]]])"
proof -
  have s: "pkh s = ESTIMATOR_ADDRESS"
    using assms(2)
  proof (cases rule: estimate_runs)
    case (no_contract e)
    then show ?thesis using assms(3) by simp
  next
    case (no_call contract e)
    then show ?thesis using assms(3) by simp
  next
    case (batch contract permit feeTransfer resp')
    then show ?thesis using assms(3) by auto
  qed
  from assms(1) obtain src where "transferParams = formTransferParams src RELAYER_ADDRESS p"
    unfolding forgeTxAndParams_Inr by blast
  then show ?thesis
    using s by (simp add: formTransferParams_def RELAYER_ADDRESS_def ESTIMATOR_ADDRESS_def)
qed

theorem relayer_is_estimator_witness:
  "\<exists>transferParams permit evs r evs' s ops resp.
     forgeTxAndParams double_lib double_tezos double_params 5
       = (Inr (transferParams, permit), evs, 5) \<and>
     estimate double_tezos double_permit 5 = (r, evs', 5) \<and>
     EstimateBatch s ops resp \<in> set evs' \<and>
     pkh s = ''tz1VSUr8wwNhLAzempoch5d6hLRiTh8Cjcjb'' \<and>
     transferParams = Arr [Arr [Obj
       [(''from_'', Str ''tz1Alice''),
        (''txs'', Arr
           [Obj [(''to_'', Str ''tz1Bob''), (''token_id'', Number (Num 0)),
                 (''amount'', Number (Num 1000))],
            Obj [(''to_'', Str (pkh s)), (''token_id'', Number (Num 0)),
                 (''amount'', Number (Num 25))]])]]]"
proof -
  note forge = double_forgeTxAndParams [of 5]
  note est = double_estimate [of 5]
  have batch: "EstimateBatch \<lparr>pkh = ESTIMATOR_ADDRESS, pk = ESTIMATOR_PUBLIC_KEY\<rparr>
         [\<lparr>kind = TRANSACTION, tParams = \<lparr>tp_to = ''KT1Token'', tp_entrypoint = ''permit'',
                                           tp_value = Seq []\<rparr>\<rparr>,
          \<lparr>kind = TRANSACTION, tParams = \<lparr>tp_to = ''KT1Token'', tp_entrypoint = ''transfer'',
                                           tp_value = Seq []\<rparr>\<rparr>]
         (Inr [\<lparr>suggestedFeeMutez = Num 100\<rparr>, \<lparr>suggestedFeeMutez = Num 250\<rparr>])
      \<in> set
      [ContractAt \<lparr>pkh = ESTIMATOR_ADDRESS, pk = ESTIMATOR_PUBLIC_KEY\<rparr> ''KT1Token''
         (Inr double_contract),
       EstimateBatch \<lparr>pkh = ESTIMATOR_ADDRESS, pk = ESTIMATOR_PUBLIC_KEY\<rparr>
         [\<lparr>kind = TRANSACTION, tParams = \<lparr>tp_to = ''KT1Token'', tp_entrypoint = ''permit'',
                                           tp_value = Seq []\<rparr>\<rparr>,
          \<lparr>kind = TRANSACTION, tParams = \<lparr>tp_to = ''KT1Token'', tp_entrypoint = ''transfer'',
                                           tp_value = Seq []\<rparr>\<rparr>]
         (Inr [\<lparr>suggestedFeeMutez = Num 100\<rparr>, \<lparr>suggestedFeeMutez = Num 250\<rparr>])]"
    by simp
  from relayer_is_estimator [OF forge est batch]
  have "pkh \<lparr>pkh = ESTIMATOR_ADDRESS, pk = ESTIMATOR_PUBLIC_KEY\<rparr>
          = ''tz1VSUr8wwNhLAzempoch5d6hLRiTh8Cjcjb''"
    by simp
  moreover have "formTransferParams ''tz1Alice'' RELAYER_ADDRESS double_params =
     Arr [Arr [Obj
       [(''from_'', Str ''tz1Alice''),
        (''txs'', Arr
           [Obj [(''to_'', Str ''tz1Bob''), (''token_id'', Number (Num 0)),
                 (''amount'', Number (Num 1000))],
            Obj [(''to_'', Str (pkh \<lparr>pkh = ESTIMATOR_ADDRESS, pk = ESTIMATOR_PUBLIC_KEY\<rparr>)),
                 (''token_id'', Number (Num 0)),
                 (''amount'', Number (Num 25))]])]]]"
    by (simp add: formTransferParams_def double_params_def optNumber_def RELAYER_ADDRESS_def
        ESTIMATOR_ADDRESS_def)
  ultimately show ?thesis using forge est batch by blast
qed

end
